theory Spec2Isabelle
  imports Complex_Main "HOL-Library.Sublist" "HOL-Library.Log_Nat"
begin

section \<open>Python values of monitor.py\<close>

text \<open>
  A Python float is an IEEE double. A finite double is kept as the rational number it
  denotes; the three special values are constructors. Negative zero is not told apart
  from zero: psutil and GPUtil report non-negative readings.
\<close>

datatype pyfloat = Finite rat | PosInf | NegInf | NaN

text \<open>
  The values that flow from the sensors to the labels: \<open>str\<close> and \<open>float\<close>. psutil
  returns floats for both percentages, so the \<open>int\<close> alternative of the
  \<open>isinstance(x, (int, float))\<close> test in \<open>update_info\<close> is never taken.
\<close>

datatype py_value = PStr string | PFloat pyfloat

text \<open>
  The subclasses of \<open>Exception\<close> that the handlers of monitor.py tell apart, each with
  the text \<open>str(e)\<close> that the handlers print. \<open>KeyboardInterrupt\<close> and
  \<open>SystemExit\<close> are not subclasses of \<open>Exception\<close>; they end the process and are
  outside the model.
\<close>

datatype exn = Gaierror string | ImportError string | OtherException string

fun exn_str :: "exn \<Rightarrow> string" where
  "exn_str (Gaierror m) = m"
| "exn_str (ImportError m) = m"
| "exn_str (OtherException m) = m"

subsection \<open>Float arithmetic and the format specifications .1f and .2f\<close>

definition round_half_even :: "rat \<Rightarrow> int" where
  "round_half_even x =
     (let f = \<lfloor>x\<rfloor>; d = x - of_int f
      in if d < 1 / 2 then f else if 1 / 2 < d then f + 1 else if even f then f else f + 1)"

text \<open>The exponent \<open>e\<close> with \<open>2^e \<le> q < 2^(e+1)\<close>, for a positive \<open>q\<close>.\<close>

definition floor_log2 :: "rat \<Rightarrow> int" where
  "floor_log2 q =
     (case quotient_of q of (a, b) \<Rightarrow>
        let d = bitlen a - bitlen b in if q < 2 powi d then d - 1 else d)"

text \<open>
  Rounding of an exact result to the nearest double, ties to even: 53 bits of precision,
  subnormals below \<open>2^-1022\<close>, overflow to infinity from \<open>2^1024\<close>.
\<close>

definition round_double :: "rat \<Rightarrow> pyfloat" where
  "round_double q =
     (if q = 0 then Finite 0
      else let e = max (floor_log2 \<bar>q\<bar>) (- 1022);
               u = 2 powi (e - 52);
               r = of_int (round_half_even (q / u)) * u
           in if 2 powi 1024 \<le> \<bar>r\<bar> then (if 0 < q then PosInf else NegInf) else Finite r)"

text \<open>\<open>a / b\<close> on two Python ints: the correctly rounded quotient, or an exception.\<close>

definition int_truediv :: "int \<Rightarrow> int \<Rightarrow> exn + pyfloat" where
  "int_truediv a b =
     (if b = 0 then Inl (OtherException ''division by zero'')
      else case round_double (of_int a / of_int b) of
             Finite r \<Rightarrow> Inr (Finite r)
           | _ \<Rightarrow> Inl (OtherException ''integer division result too large for a float''))"

text \<open>\<open>x * n\<close> on a float and a small Python int (here the constant 100, exact as a double).\<close>

fun float_mul_int :: "pyfloat \<Rightarrow> int \<Rightarrow> pyfloat" where
  "float_mul_int (Finite x) n = round_double (x * of_int n)"
| "float_mul_int NaN n = NaN"
| "float_mul_int PosInf n = (if n = 0 then NaN else if 0 < n then PosInf else NegInf)"
| "float_mul_int NegInf n = (if n = 0 then NaN else if 0 < n then NegInf else PosInf)"

definition digit_char :: "nat \<Rightarrow> char" where
  "digit_char n = ''0123456789'' ! (n mod 10)"

fun str_nat :: "nat \<Rightarrow> string" where
  "str_nat n = (if n < 10 then [digit_char n] else str_nat (n div 10) @ [digit_char n])"

declare str_nat.simps [simp del]

text \<open>
  Fixed-point rendering with \<open>p\<close> decimals of the exact value, ties to even, as
  \<open>format(x, '.pf')\<close> does for a finite double.
\<close>

definition format_fixed :: "nat \<Rightarrow> rat \<Rightarrow> string" where
  "format_fixed p q =
     (let s = nat (round_half_even (\<bar>q\<bar> * 10 ^ p));
          frac = str_nat (s mod 10 ^ p)
      in (if q < 0 then ''-'' else '''') @ str_nat (s div 10 ^ p) @
         (if p = 0 then '''' else ''.'' @ replicate (p - length frac) CHR ''0'' @ frac))"

fun format_f :: "nat \<Rightarrow> pyfloat \<Rightarrow> string" where
  "format_f p (Finite q) = format_fixed p q"
| "format_f p PosInf = ''inf''"
| "format_f p NegInf = ''-inf''"
| "format_f p NaN = ''nan''"

section \<open>The world outside the program\<close>

text \<open>The seven \<open>tk.StringVar\<close>s of \<open>SystemMonitorApp\<close>.\<close>

datatype string_var =
  ip_var | cpu_name_var | cpu_usage_var | ram_total_var | ram_usage_var | gpu_name_var
  | gpu_usage_var

text \<open>
  Every call that leaves the program is recorded, in order: the socket module, cpuinfo,
  psutil, GPUtil, \<open>print\<close>, \<open>StringVar.set\<close> and \<open>root.after\<close>.
\<close>

datatype event =
  Import_GPUtil
  | Gethostname
  | Gethostbyname string
  | Socket_new
  | Settimeout
  | Connect
  | Getsockname
  | Socket_close
  | Get_cpu_info
  | Cpu_percent
  | Virtual_memory
  | GetGPUs
  | Print string
  | Set_var string_var py_value
  | After nat

record svmem =
  total :: int
  percent :: pyfloat

record gpu =
  name :: string
  load :: pyfloat

text \<open>
  What the outside answers during one tick: each call either returns (\<open>Inr\<close>) or raises
  (\<open>Inl\<close>). \<open>gethostbyname\<close> is asked twice by \<open>get_ip_address\<close>, so its answer
  depends on the number of the call (0, then 1) as well as on the host name.
\<close>

record env =
  gethostname :: "exn + string"
  gethostbyname :: "nat \<Rightarrow> string \<Rightarrow> exn + string"
  socket_new :: "exn + unit"
  settimeout :: "exn + unit"
  connect :: "exn + unit"
  getsockname :: "exn + string"
  socket_close :: "exn + unit"
  cpuinfo_get_cpu_info :: "exn + (string \<times> string) list"
  cpu_percent :: "exn + pyfloat"
  virtual_memory :: "exn + svmem"
  getGPUs :: "exn + gpu list"
  stringvar_set :: "string_var \<Rightarrow> exn + unit"

text \<open>The state a tick changes: what the labels show, and the calls made so far.\<close>

record world =
  display :: "string_var \<Rightarrow> py_value"
  trace :: "event list"

section \<open>Statements that may raise\<close>

type_synonym 'a prog = "world \<Rightarrow> (exn + 'a) \<times> world"

definition ret :: "'a \<Rightarrow> 'a prog" where
  "ret v = (\<lambda>w. (Inr v, w))"

definition bind :: "'a prog \<Rightarrow> ('a \<Rightarrow> 'b prog) \<Rightarrow> 'b prog" where
  "bind m f = (\<lambda>w. case m w of (Inl e, w') \<Rightarrow> (Inl e, w') | (Inr v, w') \<Rightarrow> f v w')"

text \<open>\<open>try: m except Exception as e: h e\<close>\<close>

definition try_except :: "'a prog \<Rightarrow> (exn \<Rightarrow> 'a prog) \<Rightarrow> 'a prog" where
  "try_except m h = (\<lambda>w. case m w of (Inl e, w') \<Rightarrow> h e w' | (Inr v, w') \<Rightarrow> (Inr v, w'))"

text \<open>
  \<open>try: m finally: fin\<close>: the clean-up runs on both exits; an exception of the
  clean-up replaces the outcome of the body.
\<close>

definition try_finally :: "'a prog \<Rightarrow> unit prog \<Rightarrow> 'a prog" where
  "try_finally m fin =
     (\<lambda>w. case m w of (r, w') \<Rightarrow>
        (case fin w' of (Inl e, w'') \<Rightarrow> (Inl e, w'') | (Inr u, w'') \<Rightarrow> (r, w'')))"

text \<open>
  A call to the outside: recorded, then it returns or raises as the outside decides.
  \<open>print\<close> and \<open>root.after\<close> are taken to return: the program calls them outside
  every handler, or inside one, and has no answer to their failure.
\<close>

definition call :: "event \<Rightarrow> exn + 'a \<Rightarrow> 'a prog" where
  "call ev outcome = (\<lambda>w. (outcome, w\<lparr>trace := trace w @ [ev]\<rparr>))"

definition py_print :: "string \<Rightarrow> unit prog" where
  "py_print s = call (Print s) (Inr ())"

section \<open>Import of GPUtil (lines 10 to 20)\<close>

definition gpus_available :: "exn + unit \<Rightarrow> bool prog" where
  "gpus_available import_outcome =
     try_except
       (bind (call Import_GPUtil import_outcome) (\<lambda>u. ret True))
       (\<lambda>e. case e of
          ImportError m \<Rightarrow>
            bind (py_print ''GPUtil library not found. GPU information will not be available.'')
              (\<lambda>u. bind (py_print ''Install it using: pip install GPUtil'') (\<lambda>u. ret False))
        | _ \<Rightarrow>
            bind (py_print (''An error occurred importing GPUtil: '' @ exn_str e))
              (\<lambda>u. bind (py_print ''GPU information might not be available.'') (\<lambda>u. ret False)))"

section \<open>Data fetching functions\<close>

definition get_ip_address :: "env \<Rightarrow> py_value prog" where
  "get_ip_address env =
     try_except
       (bind (call Gethostname (gethostname env)) (\<lambda>hostname.
        bind (call (Gethostbyname hostname) (gethostbyname env 0 hostname)) (\<lambda>ip_address.
          if prefix ''127.'' ip_address then
            bind (call Socket_new (socket_new env)) (\<lambda>s.
            bind (call Settimeout (settimeout env)) (\<lambda>u.
            bind (try_finally
                    (try_except
                       (bind (call Connect (connect env)) (\<lambda>u.
                          call Getsockname (getsockname env)))
                       (\<lambda>e. call (Gethostbyname hostname) (gethostbyname env 1 hostname)))
                    (call Socket_close (socket_close env)))
              (\<lambda>ip_address. ret (PStr ip_address))))
          else ret (PStr ip_address))))
       (\<lambda>e. case e of
          Gaierror m \<Rightarrow> ret (PStr ''N/A (Network Error)'')
        | _ \<Rightarrow> bind (py_print (''IP Address Error: '' @ exn_str e))
                 (\<lambda>u. ret (PStr ''N/A (Error)'')))"

text \<open>\<open>info.get('brand_raw', 'N/A')\<close> on the dictionary that cpuinfo returns.\<close>

definition dict_get :: "(string \<times> string) list \<Rightarrow> string \<Rightarrow> string \<Rightarrow> string" where
  "dict_get d k dflt = (case map_of d k of Some v \<Rightarrow> v | None \<Rightarrow> dflt)"

definition get_cpu_info :: "env \<Rightarrow> (py_value \<times> py_value) prog" where
  "get_cpu_info env =
     bind (try_except
             (bind (call Get_cpu_info (cpuinfo_get_cpu_info env)) (\<lambda>info.
                ret (PStr (dict_get info ''brand_raw'' ''N/A''))))
             (\<lambda>e. bind (py_print (''CPU Name Error: '' @ exn_str e))
                     (\<lambda>u. ret (PStr ''N/A (Error getting name)''))))
       (\<lambda>cpu_name.
     bind (try_except
             (bind (call Cpu_percent (cpu_percent env)) (\<lambda>p. ret (PFloat p)))
             (\<lambda>e. bind (py_print (''CPU Usage Error: '' @ exn_str e)) (\<lambda>u. ret (PStr ''N/A''))))
       (\<lambda>cpu_percent. ret (cpu_name, cpu_percent)))"

definition get_ram_info :: "env \<Rightarrow> (py_value \<times> py_value) prog" where
  "get_ram_info env =
     try_except
       (bind (call Virtual_memory (virtual_memory env)) (\<lambda>memory.
        bind (\<lambda>w. (int_truediv (total memory) (1024 ^ 3), w)) (\<lambda>total_ram_gb.
          ret (PStr (format_f 2 total_ram_gb @ '' GB''), PFloat (percent memory)))))
       (\<lambda>e. bind (py_print (''RAM Info Error: '' @ exn_str e))
               (\<lambda>u. ret (PStr ''N/A'', PStr ''N/A'')))"

definition get_gpu_info :: "bool \<Rightarrow> env \<Rightarrow> (py_value \<times> py_value) prog" where
  "get_gpu_info available env =
     (if \<not> available then ret (PStr ''N/A (GPUtil unavailable)'', PStr ''N/A'')
      else
        try_except
          (bind (call GetGPUs (getGPUs env)) (\<lambda>gpus.
             case gpus of
               [] \<Rightarrow> ret (PStr ''N/A (No supported GPU found)'', PStr ''N/A'')
             | g # rest \<Rightarrow>
                 (let gpu_name = name g;
                      gpu_load = float_mul_int (load g) 100
                  in ret (PStr gpu_name, PStr (format_f 1 gpu_load @ ''%'')))))
          (\<lambda>e. bind (py_print (''GPU Info Error: '' @ exn_str e))
                  (\<lambda>u. ret (PStr ''N/A (Error querying GPU)'', PStr ''N/A''))))"

section \<open>The application class\<close>

text \<open>\<open>var.set(v)\<close>: the call may raise (a Tcl error); when it returns, the label shows \<open>v\<close>.\<close>

definition set_var :: "env \<Rightarrow> string_var \<Rightarrow> py_value \<Rightarrow> unit prog" where
  "set_var env x v =
     bind (call (Set_var x v) (stringvar_set env x))
       (\<lambda>u w. (Inr (), w\<lparr>display := (display w)(x := v)\<rparr>))"

text \<open>\<open>f"{x:.1f}%" if isinstance(x, (int, float)) else x\<close>\<close>

fun percent_text :: "py_value \<Rightarrow> py_value" where
  "percent_text (PFloat x) = PStr (format_f 1 x @ ''%'')"
| "percent_text (PStr s) = PStr s"

text \<open>\<open>root.after(ms, self.update_info)\<close> arms a one-shot timer for the next tick.\<close>

definition after :: "nat \<Rightarrow> unit prog" where
  "after ms = call (After ms) (Inr ())"

definition update_info :: "bool \<Rightarrow> env \<Rightarrow> unit prog" where
  "update_info available env =
     bind (try_except
             (bind (get_ip_address env) (\<lambda>ip.
              bind (get_cpu_info env) (\<lambda>(cpu_name, cpu_usage).
              bind (get_ram_info env) (\<lambda>(ram_total, ram_usage).
              bind (get_gpu_info available env) (\<lambda>(gpu_name, gpu_usage).
              bind (set_var env ip_var ip) (\<lambda>u.
              bind (set_var env cpu_name_var cpu_name) (\<lambda>u.
              bind (set_var env cpu_usage_var (percent_text cpu_usage)) (\<lambda>u.
              bind (set_var env ram_total_var ram_total) (\<lambda>u.
              bind (set_var env ram_usage_var (percent_text ram_usage)) (\<lambda>u.
              bind (set_var env gpu_name_var gpu_name) (\<lambda>u.
                    set_var env gpu_usage_var gpu_usage)))))))))))
             (\<lambda>e. py_print (''Error during update: '' @ exn_str e)))
       (\<lambda>u. after 1000)"

text \<open>
  The constructor: every variable starts as \<open>"Fetching..."\<close>, the labels are laid out
  (no call that the model records), and \<open>update_info\<close> is called once, directly.
\<close>

definition fetching :: "string_var \<Rightarrow> py_value" where
  "fetching x = PStr ''Fetching...''"

definition init_app :: "bool \<Rightarrow> env \<Rightarrow> unit prog" where
  "init_app available env = (\<lambda>w. update_info available env (w\<lparr>display := fetching\<rparr>))"

section \<open>Reading a run\<close>

text \<open>
  A statement never raises when it returns a value from every world; it only logs when
  all it does to the world is to append calls (each satisfying \<open>P\<close>) to the trace, the
  same calls with the same outcome from every world.
\<close>

definition never_raises :: "'a prog \<Rightarrow> bool" where
  "never_raises m \<longleftrightarrow> (\<forall>w. \<exists>v. fst (m w) = Inr v)"

definition only_logs :: "(event \<Rightarrow> bool) \<Rightarrow> 'a prog \<Rightarrow> bool" where
  "only_logs P m \<longleftrightarrow> (\<exists>r t. list_all P t \<and> (\<forall>w. m w = (r, w\<lparr>trace := trace w @ t\<rparr>)))"

text \<open>The calls of the four sensors: everything but \<open>StringVar.set\<close> and \<open>root.after\<close>.\<close>

fun sensor_event :: "event \<Rightarrow> bool" where
  "sensor_event (Set_var x v) = False"
| "sensor_event (After n) = False"
| "sensor_event e = True"

text \<open>The world before the first tick, and what a statement returns and logs from it.\<close>

definition idle_world :: world where
  "idle_world = \<lparr>display = fetching, trace = []\<rparr>"

definition value_of :: "'a prog \<Rightarrow> 'a" where
  "value_of m = projr (fst (m idle_world))"

definition events_of :: "'a prog \<Rightarrow> event list" where
  "events_of m = trace (snd (m idle_world))"

text \<open>The order of the seven \<open>set\<close> calls of \<open>update_info\<close> (lines 171 to 177).\<close>

definition publish_order :: "string_var list" where
  "publish_order =
     [ip_var, cpu_name_var, cpu_usage_var, ram_total_var, ram_usage_var, gpu_name_var,
      gpu_usage_var]"

text \<open>
  The snapshot of a tick: the value that \<open>update_info\<close> hands to each \<open>set\<close> call, read
  off the four sensors (the two psutil percentages after \<open>percent_text\<close>).
\<close>

fun snapshot :: "bool \<Rightarrow> env \<Rightarrow> string_var \<Rightarrow> py_value" where
  "snapshot a env ip_var = value_of (get_ip_address env)"
| "snapshot a env cpu_name_var = fst (value_of (get_cpu_info env))"
| "snapshot a env cpu_usage_var = percent_text (snd (value_of (get_cpu_info env)))"
| "snapshot a env ram_total_var = fst (value_of (get_ram_info env))"
| "snapshot a env ram_usage_var = percent_text (snd (value_of (get_ram_info env)))"
| "snapshot a env gpu_name_var = fst (value_of (get_gpu_info a env))"
| "snapshot a env gpu_usage_var = snd (value_of (get_gpu_info a env))"

definition sensor_events :: "bool \<Rightarrow> env \<Rightarrow> event list" where
  "sensor_events a env =
     events_of (get_ip_address env) @ events_of (get_cpu_info env) @
     events_of (get_ram_info env) @ events_of (get_gpu_info a env)"

text \<open>
  The variables whose \<open>set\<close> call returned, the variables whose \<open>set\<close> call was made, and
  the exception of the first \<open>set\<close> call that raised, if one did.
\<close>

definition published :: "env \<Rightarrow> string_var list" where
  "published env = takeWhile (\<lambda>x. stringvar_set env x = Inr ()) publish_order"

definition attempted :: "env \<Rightarrow> string_var list" where
  "attempted env = take (Suc (length (published env))) publish_order"

fun first_error :: "env \<Rightarrow> string_var list \<Rightarrow> exn option" where
  "first_error env [] = None"
| "first_error env (x # xs) =
     (case stringvar_set env x of Inl e \<Rightarrow> Some e | Inr u \<Rightarrow> first_error env xs)"

definition fault :: "env \<Rightarrow> exn option" where
  "fault env = first_error env publish_order"

text \<open>The seven \<open>set\<close> calls as one loop over \<open>publish_order\<close>.\<close>

fun publish :: "env \<Rightarrow> (string_var \<Rightarrow> py_value) \<Rightarrow> string_var list \<Rightarrow> unit prog" where
  "publish env s [] = ret ()"
| "publish env s (x # xs) = bind (set_var env x (s x)) (\<lambda>u. publish env s xs)"

text \<open>A value that stands for a missing reading: a string that starts with \<open>N/A\<close>.\<close>

fun unavailable :: "py_value \<Rightarrow> bool" where
  "unavailable (PStr s) = prefix ''N/A'' s"
| "unavailable (PFloat x) = False"

section \<open>A host to run the program on\<close>

text \<open>
  A host whose name resolves to the loopback address and whose outbound interface is
  192.168.1.50, with a CPU at 42.36 percent, 2 GiB of RAM and one GPU at half load.
  Every call returns.
\<close>

definition test_host :: env where
  "test_host =
     \<lparr>gethostname = Inr ''workstation'',
      gethostbyname = (\<lambda>n h. Inr ''127.0.0.1''),
      socket_new = Inr (),
      settimeout = Inr (),
      connect = Inr (),
      getsockname = Inr ''192.168.1.50'',
      socket_close = Inr (),
      cpuinfo_get_cpu_info = Inr [(''brand_raw'', ''Test CPU'')],
      cpu_percent = Inr (Finite (2980820003365847 / 70368744177664)),
      virtual_memory = Inr \<lparr>total = 2147483648, percent = Finite (125 / 2)\<rparr>,
      getGPUs = Inr [\<lparr>name = ''Test GPU'', load = Finite (1 / 2)\<rparr>],
      stringvar_set = (\<lambda>x. Inr ())\<rparr>"

text \<open>The same host with a Tcl error at the \<open>set\<close> call of one variable.\<close>

definition set_fails_at :: "string_var \<Rightarrow> env" where
  "set_fails_at y =
     test_host\<lparr>stringvar_set :=
       (\<lambda>x. if x = y then Inl (OtherException ''TclError'') else Inr ())\<rparr>"

section \<open>The refresh loop as a transition system\<close>

text \<open>
  Tk keeps the timers armed by \<open>root.after\<close>; a timer fires once and starts the callback
  it was armed with, here always \<open>update_info\<close>. The scheduler state counts the armed
  timers and holds, for every call of \<open>update_info\<close> that has started and not returned,
  the calls it has still to make. Nothing is assumed about time or about the event loop
  being idle: an armed timer may fire at any moment, also while a tick is running, and
  the calls of different running ticks may interleave in any order.
\<close>

record sched =
  pending :: nat
  running :: "event list list"

fun arms :: "event \<Rightarrow> nat" where
  "arms (After ms) = 1"
| "arms e = 0"

definition tick_events :: "bool \<Rightarrow> env \<Rightarrow> event list" where
  "tick_events a env = events_of (update_info a env)"

inductive step :: "bool \<Rightarrow> sched \<Rightarrow> sched \<Rightarrow> bool" for a :: bool where
  fire: "0 < pending s \<Longrightarrow>
     step a s \<lparr>pending = pending s - 1, running = running s @ [tick_events a env]\<rparr>"
| make_call: "running s = before @ (e # es) # behind \<Longrightarrow> es \<noteq> [] \<Longrightarrow>
     step a s \<lparr>pending = pending s + arms e, running = before @ es # behind\<rparr>"
| last_call: "running s = before @ [e] # behind \<Longrightarrow>
     step a s \<lparr>pending = pending s + arms e, running = before @ behind\<rparr>"

text \<open>The constructor calls \<open>update_info\<close> itself, with no timer armed.\<close>

inductive reachable :: "bool \<Rightarrow> sched \<Rightarrow> bool" for a :: bool where
  constructed: "reachable a \<lparr>pending = 0, running = [events_of (init_app a env)]\<rparr>"
| stepped: "reachable a s \<Longrightarrow> step a s s' \<Longrightarrow> reachable a s'"

text \<open>The calls of a tick that are still to make end with the one call that arms a timer.\<close>

definition arms_last :: "event list \<Rightarrow> bool" where
  "arms_last r \<longleftrightarrow> (\<exists>body ms. r = body @ [After ms] \<and> list_all (\<lambda>e. arms e = 0) body)"

section \<open>The network sensor, call by call\<close>

text \<open>
  The outcome and the calls of the block of lines 36 to 44 for the host name \<open>h\<close>:
  connect, read the socket's own address, on an exception of either resolve \<open>h\<close> again,
  and close the socket on every path.
\<close>

definition outbound_probe :: "env \<Rightarrow> string \<Rightarrow> (exn + string) \<times> event list" where
  "outbound_probe env h =
     (case (case connect env of
              Inl e \<Rightarrow> (gethostbyname env 1 h, [Connect, Gethostbyname h])
            | Inr u \<Rightarrow>
                (case getsockname env of
                   Inl e \<Rightarrow> (gethostbyname env 1 h, [Connect, Getsockname, Gethostbyname h])
                 | Inr out \<Rightarrow> (Inr out, [Connect, Getsockname]))) of
        (r, t) \<Rightarrow>
          (case socket_close env of Inl e \<Rightarrow> Inl e | Inr u \<Rightarrow> r, t @ [Socket_close]))"

text \<open>The outcome and the calls of lines 28 to 45, before the handlers of lines 46 to 50.\<close>

definition resolve_address :: "env \<Rightarrow> (exn + string) \<times> event list" where
  "resolve_address env =
     (case gethostname env of
        Inl e \<Rightarrow> (Inl e, [Gethostname])
      | Inr h \<Rightarrow>
          (case gethostbyname env 0 h of
             Inl e \<Rightarrow> (Inl e, [Gethostname, Gethostbyname h])
           | Inr ip \<Rightarrow>
               if prefix ''127.'' ip then
                 (case socket_new env of
                    Inl e \<Rightarrow> (Inl e, [Gethostname, Gethostbyname h, Socket_new])
                  | Inr s \<Rightarrow>
                      (case settimeout env of
                         Inl e \<Rightarrow> (Inl e, [Gethostname, Gethostbyname h, Socket_new, Settimeout])
                       | Inr u \<Rightarrow>
                           (fst (outbound_probe env h),
                            [Gethostname, Gethostbyname h, Socket_new, Settimeout] @
                            snd (outbound_probe env h))))
               else (Inr ip, [Gethostname, Gethostbyname h])))"

text \<open>The two handlers: what they return and what they print.\<close>

fun ip_handler :: "exn \<Rightarrow> py_value \<times> event list" where
  "ip_handler (Gaierror m) = (PStr ''N/A (Network Error)'', [])"
| "ip_handler e = (PStr ''N/A (Error)'', [Print (''IP Address Error: '' @ exn_str e)])"

text \<open>
  The text of the IPv4 address \<open>a.b.c.d\<close>, as the resolver and \<open>getsockname\<close> write
  it: four decimal numbers with no leading zeros, separated by points.
\<close>

definition ipv4_text :: "nat \<Rightarrow> nat \<Rightarrow> nat \<Rightarrow> nat \<Rightarrow> string" where
  "ipv4_text a b c d = str_nat a @ ''.'' @ str_nat b @ ''.'' @ str_nat c @ ''.'' @ str_nat d"

section \<open>Typed readings\<close>

text \<open>A float between 0 and 100, and a float above 0: what the data model asks of a usage
  and of a capacity.\<close>

fun percentage :: "py_value \<Rightarrow> bool" where
  "percentage (PFloat (Finite q)) = (0 \<le> q \<and> q \<le> 100)"
| "percentage v = False"

fun positive_float :: "py_value \<Rightarrow> bool" where
  "positive_float (PFloat (Finite q)) = (0 < q)"
| "positive_float v = False"

section \<open>Rules for the statements\<close>

lemma never_raises_ret: "never_raises (ret v)"
  by (simp add: never_raises_def ret_def)

lemma never_raises_call: "never_raises (call ev (Inr v))"
  by (simp add: never_raises_def call_def)

lemma never_raises_print: "never_raises (py_print s)"
  by (simp add: py_print_def never_raises_call)

lemma never_raises_bind:
  "never_raises m \<Longrightarrow> (\<And>v. never_raises (f v)) \<Longrightarrow> never_raises (bind m f)"
  unfolding never_raises_def bind_def
proof (intro allI)
  fix w
  assume m: "\<forall>w. \<exists>v. fst (m w) = Inr v" and f: "\<And>v. \<forall>w. \<exists>u. fst (f v w) = Inr u"
  from m obtain v where "fst (m w) = Inr v" by blast
  then obtain w' where "m w = (Inr v, w')" by (cases "m w") auto
  with f [of v] show "\<exists>u. fst (case m w of (Inl e, w') \<Rightarrow> (Inl e, w') | (Inr v, w') \<Rightarrow> f v w') = Inr u"
    by simp
qed

lemma never_raises_try_except:
  "(\<And>e. never_raises (h e)) \<Longrightarrow> never_raises (try_except m h)"
  unfolding never_raises_def try_except_def
  by (auto split: prod.splits sum.splits)

lemma only_logs_ret: "only_logs P (ret v)"
  unfolding only_logs_def ret_def
  by (rule exI [of _ "Inr v"], rule exI [of _ "[]"]) simp

lemma only_logs_pure: "only_logs P (\<lambda>w. (r, w))"
  unfolding only_logs_def
  by (rule exI [of _ r], rule exI [of _ "[]"]) simp

lemma only_logs_call: "P ev \<Longrightarrow> only_logs P (call ev outcome)"
  unfolding only_logs_def call_def
  by (rule exI [of _ outcome], rule exI [of _ "[ev]"]) simp

lemma only_logs_bind:
  assumes "only_logs P m" and "\<And>v. only_logs P (f v)"
  shows "only_logs P (bind m f)"
proof -
  from assms(1) obtain r t where t: "list_all P t" and m: "\<And>w. m w = (r, w\<lparr>trace := trace w @ t\<rparr>)"
    unfolding only_logs_def by blast
  show ?thesis
  proof (cases r)
    case (Inl e)
    with t m show ?thesis
      unfolding only_logs_def bind_def
      by (intro exI [of _ "Inl e"] exI [of _ t]) simp
  next
    case (Inr v)
    from assms(2) [of v] obtain r' t' where t': "list_all P t'"
      and f: "\<And>w. f v w = (r', w\<lparr>trace := trace w @ t'\<rparr>)"
      unfolding only_logs_def by blast
    with Inr t m show ?thesis
      unfolding only_logs_def bind_def
      by (intro exI [of _ r'] exI [of _ "t @ t'"]) simp
  qed
qed

lemma only_logs_try_except:
  assumes "only_logs P m" and "\<And>e. only_logs P (h e)"
  shows "only_logs P (try_except m h)"
proof -
  from assms(1) obtain r t where t: "list_all P t" and m: "\<And>w. m w = (r, w\<lparr>trace := trace w @ t\<rparr>)"
    unfolding only_logs_def by blast
  show ?thesis
  proof (cases r)
    case (Inr v)
    with t m show ?thesis
      unfolding only_logs_def try_except_def
      by (intro exI [of _ "Inr v"] exI [of _ t]) simp
  next
    case (Inl e)
    from assms(2) [of e] obtain r' t' where t': "list_all P t'"
      and f: "\<And>w. h e w = (r', w\<lparr>trace := trace w @ t'\<rparr>)"
      unfolding only_logs_def by blast
    with Inl t m show ?thesis
      unfolding only_logs_def try_except_def
      by (intro exI [of _ r'] exI [of _ "t @ t'"]) simp
  qed
qed

lemma only_logs_try_finally:
  assumes "only_logs P m" and "only_logs P fin"
  shows "only_logs P (try_finally m fin)"
proof -
  from assms(1) obtain r t where t: "list_all P t" and m: "\<And>w. m w = (r, w\<lparr>trace := trace w @ t\<rparr>)"
    unfolding only_logs_def by blast
  from assms(2) obtain r' t' where t': "list_all P t'"
    and f: "\<And>w. fin w = (r', w\<lparr>trace := trace w @ t'\<rparr>)"
    unfolding only_logs_def by blast
  show ?thesis
  proof (cases r')
    case (Inr u)
    with t m t' f show ?thesis
      unfolding only_logs_def try_finally_def
      by (intro exI [of _ r] exI [of _ "t @ t'"]) simp
  next
    case (Inl e)
    with t m t' f show ?thesis
      unfolding only_logs_def try_finally_def
      by (intro exI [of _ "Inl e"] exI [of _ "t @ t'"]) simp
  qed
qed

lemmas only_logs_intros =
  only_logs_ret only_logs_pure only_logs_call only_logs_bind only_logs_try_except only_logs_try_finally

lemma only_logs_print: "only_logs sensor_event (py_print s)"
  by (simp add: py_print_def only_logs_call)

lemma get_ip_address_logs: "only_logs sensor_event (get_ip_address env)"
  unfolding get_ip_address_def
  by (intro only_logs_intros only_logs_print | simp split: exn.split | intro conjI allI impI)+

lemma get_ip_address_returns: "never_raises (get_ip_address env)"
  unfolding get_ip_address_def
  by (intro never_raises_try_except) (auto split: exn.split intro!: never_raises_bind never_raises_ret never_raises_print)

lemma get_cpu_info_logs: "only_logs sensor_event (get_cpu_info env)"
  unfolding get_cpu_info_def
  by (intro only_logs_intros only_logs_print | simp split: exn.split | intro conjI allI impI)+

lemma get_cpu_info_returns: "never_raises (get_cpu_info env)"
  unfolding get_cpu_info_def
  by (intro never_raises_try_except never_raises_bind never_raises_ret never_raises_print)

lemma get_ram_info_logs: "only_logs sensor_event (get_ram_info env)"
  unfolding get_ram_info_def
  by (intro only_logs_intros only_logs_print | simp split: exn.split | intro conjI allI impI)+

lemma get_ram_info_returns: "never_raises (get_ram_info env)"
  unfolding get_ram_info_def
  by (intro never_raises_try_except never_raises_bind never_raises_ret never_raises_print)

lemma get_gpu_info_logs: "only_logs sensor_event (get_gpu_info a env)"
  unfolding get_gpu_info_def
  by (intro only_logs_intros only_logs_print | simp split: exn.split list.split add: Let_def | intro conjI allI impI)+

lemma get_gpu_info_returns: "never_raises (get_gpu_info a env)"
  unfolding get_gpu_info_def
  by (auto intro!: never_raises_try_except never_raises_bind never_raises_ret never_raises_print)

section \<open>What one tick does\<close>

lemma run_sensor:
  assumes "only_logs P m" and "never_raises m"
  shows "m w = (Inr (value_of m), w\<lparr>trace := trace w @ events_of m\<rparr>)"
    and "list_all P (events_of m)"
proof -
  from assms(1) obtain r t where t: "list_all P t" and m: "\<And>w. m w = (r, w\<lparr>trace := trace w @ t\<rparr>)"
    unfolding only_logs_def by blast
  from assms(2) obtain v where "fst (m idle_world) = Inr v"
    unfolding never_raises_def by blast
  with m [of idle_world] have r: "r = Inr v" by simp
  have "value_of m = v" "events_of m = t"
    using m [of idle_world] r by (simp_all add: value_of_def events_of_def idle_world_def)
  with m [of w] r t show "m w = (Inr (value_of m), w\<lparr>trace := trace w @ events_of m\<rparr>)"
    and "list_all P (events_of m)" by simp_all
qed

lemmas get_ip_address_run = run_sensor [OF get_ip_address_logs get_ip_address_returns]
lemmas get_cpu_info_run = run_sensor [OF get_cpu_info_logs get_cpu_info_returns]
lemmas get_ram_info_run = run_sensor [OF get_ram_info_logs get_ram_info_returns]
lemmas get_gpu_info_run = run_sensor [OF get_gpu_info_logs get_gpu_info_returns]

lemma bind_unit_ret: "bind m ret = m"
  by (rule ext) (simp add: bind_def ret_def split: prod.splits sum.splits)

lemma publish_run:
  "publish env s xs w =
     (case first_error env xs of None \<Rightarrow> Inr () | Some e \<Rightarrow> Inl e,
      w\<lparr>display := (\<lambda>y. if y \<in> set (takeWhile (\<lambda>x. stringvar_set env x = Inr ()) xs)
                         then s y else display w y),
        trace := trace w @ map (\<lambda>x. Set_var x (s x))
                   (take (Suc (length (takeWhile (\<lambda>x. stringvar_set env x = Inr ()) xs))) xs)\<rparr>)"
proof (induction xs arbitrary: w)
  case Nil
  show ?case by (simp add: ret_def)
next
  case (Cons x xs)
  show ?case
  proof (cases "stringvar_set env x")
    case (Inl e)
    then show ?thesis by (simp add: bind_def set_var_def call_def)
  next
    case (Inr u)
    then have "publish env s (x # xs) w =
        publish env s xs (w\<lparr>trace := trace w @ [Set_var x (s x)], display := (display w)(x := s x)\<rparr>)"
      by (simp add: bind_def set_var_def call_def)
    also note Cons.IH
    finally show ?thesis using Inr by (auto simp: fun_eq_iff)
  qed
qed

lemma update_info_publish:
  "update_info a env =
     bind (try_except
             (bind (get_ip_address env) (\<lambda>ip.
              bind (get_cpu_info env) (\<lambda>cpu.
              bind (get_ram_info env) (\<lambda>ram.
              bind (get_gpu_info a env) (\<lambda>gpu.
                publish env
                  (\<lambda>x. case x of
                     ip_var \<Rightarrow> ip | cpu_name_var \<Rightarrow> fst cpu | cpu_usage_var \<Rightarrow> percent_text (snd cpu)
                   | ram_total_var \<Rightarrow> fst ram | ram_usage_var \<Rightarrow> percent_text (snd ram)
                   | gpu_name_var \<Rightarrow> fst gpu | gpu_usage_var \<Rightarrow> snd gpu)
                  publish_order)))))
             (\<lambda>e. py_print (''Error during update: '' @ exn_str e)))
       (\<lambda>u. after 1000)"
  by (simp add: update_info_def publish_order_def bind_unit_ret case_prod_unfold)

lemma snapshot_case:
  "(\<lambda>x. case x of
       ip_var \<Rightarrow> value_of (get_ip_address env)
     | cpu_name_var \<Rightarrow> fst (value_of (get_cpu_info env))
     | cpu_usage_var \<Rightarrow> percent_text (snd (value_of (get_cpu_info env)))
     | ram_total_var \<Rightarrow> fst (value_of (get_ram_info env))
     | ram_usage_var \<Rightarrow> percent_text (snd (value_of (get_ram_info env)))
     | gpu_name_var \<Rightarrow> fst (value_of (get_gpu_info a env))
     | gpu_usage_var \<Rightarrow> snd (value_of (get_gpu_info a env))) = snapshot a env"
  by (rule ext) (simp split: string_var.split)

lemma publish_order_run:
  "publish env s publish_order w =
     (case fault env of None \<Rightarrow> Inr () | Some e \<Rightarrow> Inl e,
      w\<lparr>display := (\<lambda>y. if y \<in> set (published env) then s y else display w y),
        trace := trace w @ map (\<lambda>x. Set_var x (s x)) (attempted env)\<rparr>)"
  unfolding publish_run fault_def published_def attempted_def ..

lemma bind_apply:
  "bind m f w = (case m w of (Inl e, w') \<Rightarrow> (Inl e, w') | (Inr v, w') \<Rightarrow> f v w')"
  by (simp add: bind_def)

lemma try_except_apply:
  "try_except m h w = (case m w of (Inl e, w') \<Rightarrow> h e w' | (Inr v, w') \<Rightarrow> (Inr v, w'))"
  by (simp add: try_except_def)

lemma update_info_run:
  "update_info a env w =
     (Inr (),
      w\<lparr>display := (\<lambda>y. if y \<in> set (published env) then snapshot a env y else display w y),
        trace := trace w @ sensor_events a env @
                 map (\<lambda>x. Set_var x (snapshot a env x)) (attempted env) @
                 (case fault env of
                    None \<Rightarrow> []
                  | Some e \<Rightarrow> [Print (''Error during update: '' @ exn_str e)]) @
                 [After 1000]\<rparr>)"
proof -
  let ?body =
    "bind (get_ip_address env) (\<lambda>ip.
     bind (get_cpu_info env) (\<lambda>cpu.
     bind (get_ram_info env) (\<lambda>ram.
     bind (get_gpu_info a env) (\<lambda>gpu.
       publish env
         (\<lambda>x. case x of
            ip_var \<Rightarrow> ip | cpu_name_var \<Rightarrow> fst cpu | cpu_usage_var \<Rightarrow> percent_text (snd cpu)
          | ram_total_var \<Rightarrow> fst ram | ram_usage_var \<Rightarrow> percent_text (snd ram)
          | gpu_name_var \<Rightarrow> fst gpu | gpu_usage_var \<Rightarrow> snd gpu)
         publish_order))))"
  let ?handler = "\<lambda>e. py_print (''Error during update: '' @ exn_str e)"
  define w1 where "w1 = w\<lparr>trace := trace w @ sensor_events a env\<rparr>"
  have "?body w = publish env (snapshot a env) publish_order w1"
    by (simp add: bind_def get_ip_address_run get_cpu_info_run get_ram_info_run
        get_gpu_info_run snapshot_case w1_def sensor_events_def)
  then have body:
    "?body w =
       (case fault env of None \<Rightarrow> Inr () | Some e \<Rightarrow> Inl e,
        w\<lparr>display := (\<lambda>y. if y \<in> set (published env) then snapshot a env y else display w y),
          trace := trace w @ sensor_events a env @
                   map (\<lambda>x. Set_var x (snapshot a env x)) (attempted env)\<rparr>)"
    by (simp add: publish_order_run w1_def cong: if_cong)
  have "update_info a env w =
      (case try_except ?body ?handler w of
         (Inl e, w') \<Rightarrow> (Inl e, w') | (Inr v, w') \<Rightarrow> after 1000 w')"
    unfolding update_info_publish by (rule bind_apply)
  also have "try_except ?body ?handler w =
      (case ?body w of (Inl e, w') \<Rightarrow> ?handler e w' | (Inr v, w') \<Rightarrow> (Inr v, w'))"
    by (rule try_except_apply)
  finally show ?thesis
    unfolding body
    by (cases "fault env") (simp_all add: after_def call_def py_print_def)
qed

section \<open>Rounding and rendering\<close>

lemma round_half_even_cases:
  "round_half_even x = \<lfloor>x\<rfloor> \<or> round_half_even x = \<lfloor>x\<rfloor> + 1"
  by (simp add: round_half_even_def Let_def)


lemma round_half_even_ge: "of_int k \<le> x \<Longrightarrow> k \<le> round_half_even x"
proof -
  assume "of_int k \<le> x"
  then have "k \<le> \<lfloor>x\<rfloor>" by (simp add: le_floor_iff)
  with round_half_even_cases [of x] show ?thesis by auto
qed

lemma round_half_even_le: "x \<le> of_int k \<Longrightarrow> round_half_even x \<le> k"
proof -
  assume le: "x \<le> of_int k"
  show ?thesis
  proof (cases "x = of_int k")
    case True
    then show ?thesis by (simp add: round_half_even_def)
  next
    case False
    with le have "x < of_int k" by simp
    then have "\<lfloor>x\<rfloor> < k" by (simp add: floor_less_iff)
    with round_half_even_cases [of x] show ?thesis by auto
  qed
qed

lemma round_half_even_of_int: "round_half_even (of_int k) = k"
  by (simp add: round_half_even_def)




lemma truediv_2G: "int_truediv 2147483648 1073741824 = Inr (Finite 2)"
  by code_simp

lemma format_2: "format_fixed 2 2 = ''2.00''"
  by code_simp

lemma double_4236: "round_double (4236 / 100) = Finite (2980820003365847 / 70368744177664)"
  by code_simp

lemma format_4236: "format_fixed 1 (2980820003365847 / 70368744177664) = ''42.4''"
  by code_simp

section \<open>The GPU sensor\<close>

text \<open>
  C6. While the flag set at import time is false, every call of \<open>get_gpu_info\<close> returns
  the pair \<open>("N/A (GPUtil unavailable)", "N/A")\<close>, both of them unavailable values, and
  leaves the world as it was: \<open>GPUtil.getGPUs\<close> is not called. Any exception raised by
  the import of GPUtil sets the flag to false.
\<close>

theorem gpu_absence:
  "get_gpu_info False env w = (Inr (PStr ''N/A (GPUtil unavailable)'', PStr ''N/A''), w)
   \<and> unavailable (PStr ''N/A (GPUtil unavailable)'') \<and> unavailable (PStr ''N/A'')
   \<and> GetGPUs \<notin> set (events_of (get_gpu_info False env))
   \<and> fst (gpus_available (Inl e) w) = Inr False"
  by (cases e) (simp_all add: get_gpu_info_def ret_def events_of_def idle_world_def
      gpus_available_def try_except_def bind_def call_def py_print_def)


section \<open>Rendering of the RAM total and of the CPU usage\<close>

text \<open>
  C9. When psutil reports a total of exactly 2147483648 bytes, \<open>get_ram_info\<close> returns
  the string \<open>"2.00 GB"\<close> as the total: the bytes divided by \<open>1024^3\<close>, with two
  decimals. The double nearest to 42.36 is 2980820003365847 / 2^46, and line 173 of
  \<open>update_info\<close> renders that CPU usage as \<open>"42.4%"\<close>.
\<close>

theorem formatting_round_trip:
  "fst (get_ram_info (env\<lparr>virtual_memory := Inr \<lparr>total = 2147483648, percent = p\<rparr>\<rparr>) w) =
     Inr (PStr ''2.00 GB'', PFloat p)
   \<and> round_double (4236 / 100) = Finite (2980820003365847 / 70368744177664)
   \<and> percent_text (PFloat (Finite (2980820003365847 / 70368744177664))) = PStr ''42.4%''"
proof (intro conjI)
  show "fst (get_ram_info (env\<lparr>virtual_memory := Inr \<lparr>total = 2147483648, percent = p\<rparr>\<rparr>) w) =
     Inr (PStr ''2.00 GB'', PFloat p)"
    by (simp add: get_ram_info_def ret_def try_except_def bind_def call_def truediv_2G format_2)
  show "round_double (4236 / 100) = Finite (2980820003365847 / 70368744177664)"
    by (rule double_4236)
  show "percent_text (PFloat (Finite (2980820003365847 / 70368744177664))) = PStr ''42.4%''"
    unfolding percent_text.simps format_f.simps format_4236 by simp
qed

section \<open>Values on the test host\<close>

lemma sensors_ignore_set:
  "get_ip_address (env\<lparr>stringvar_set := f\<rparr>) = get_ip_address env"
  "get_cpu_info (env\<lparr>stringvar_set := f\<rparr>) = get_cpu_info env"
  "get_ram_info (env\<lparr>stringvar_set := f\<rparr>) = get_ram_info env"
  "get_gpu_info a (env\<lparr>stringvar_set := f\<rparr>) = get_gpu_info a env"
  by (simp_all add: get_ip_address_def get_cpu_info_def get_ram_info_def get_gpu_info_def
      cong: if_cong)

lemma snapshot_ignores_set: "snapshot a (env\<lparr>stringvar_set := f\<rparr>) = snapshot a env"
proof (rule ext)
  fix x
  show "snapshot a (env\<lparr>stringvar_set := f\<rparr>) x = snapshot a env x"
    by (cases x) (simp_all add: sensors_ignore_set)
qed

lemma sensor_events_ignore_set:
  "sensor_events a (env\<lparr>stringvar_set := f\<rparr>) = sensor_events a env"
  by (simp add: sensor_events_def sensors_ignore_set)

lemma double_50: "round_double 50 = Finite 50"
  by code_simp

lemma format_50: "format_fixed 1 50 = ''50.0''"
  by code_simp

lemma format_625: "format_fixed 1 (125 / 2) = ''62.5''"
  by code_simp

lemma test_host_values:
  "value_of (get_ip_address test_host) = PStr ''192.168.1.50''"
  "value_of (get_cpu_info test_host) =
     (PStr ''Test CPU'', PFloat (Finite (2980820003365847 / 70368744177664)))"
  "value_of (get_ram_info test_host) = (PStr ''2.00 GB'', PFloat (Finite (125 / 2)))"
  "value_of (get_gpu_info True test_host) = (PStr ''Test GPU'', PStr ''50.0%'')"
  by (simp_all add: value_of_def idle_world_def test_host_def get_ip_address_def
      get_cpu_info_def get_ram_info_def get_gpu_info_def bind_def try_except_def
      try_finally_def call_def ret_def dict_get_def truediv_2G format_2 double_50)
    (simp add: format_50 [simplified])

lemma test_host_snapshot:
  "snapshot True test_host ip_var = PStr ''192.168.1.50''"
  "snapshot True test_host cpu_name_var = PStr ''Test CPU''"
  "snapshot True test_host cpu_usage_var = PStr ''42.4%''"
  "snapshot True test_host ram_total_var = PStr ''2.00 GB''"
  "snapshot True test_host ram_usage_var = PStr ''62.5%''"
  "snapshot True test_host gpu_name_var = PStr ''Test GPU''"
  "snapshot True test_host gpu_usage_var = PStr ''50.0%''"
  unfolding snapshot.simps test_host_values fst_conv snd_conv percent_text.simps format_f.simps
    format_4236 format_625
  by simp_all

section \<open>Calls and display of one tick\<close>

lemma display_after_tick:
  "display (snd (update_info a env w)) x =
     (if x \<in> set (published env) then snapshot a env x else display w x)"
  by (simp add: update_info_run)

lemma trace_after_tick:
  "trace (snd (update_info a env w)) =
     trace w @ sensor_events a env @
     map (\<lambda>x. Set_var x (snapshot a env x)) (attempted env) @
     (case fault env of
        None \<Rightarrow> []
      | Some e \<Rightarrow> [Print (''Error during update: '' @ exn_str e)]) @
     [After 1000]"
  by (simp add: update_info_run)

lemma first_call:
  assumes "\<And>v. only_logs P (f v)" and "\<And>e. only_logs P (h e)"
  shows "\<exists>t. events_of (try_except (bind (call ev outcome) f) h) = ev # t"
proof (cases outcome)
  case (Inl e)
  from assms(2) [of e] obtain r t where "\<And>w. h e w = (r, w\<lparr>trace := trace w @ t\<rparr>)"
    unfolding only_logs_def by blast
  with Inl show ?thesis
    by (simp add: events_of_def try_except_def bind_def call_def idle_world_def)
next
  case (Inr v)
  from assms(1) [of v] obtain r t where f: "\<And>w. f v w = (r, w\<lparr>trace := trace w @ t\<rparr>)"
    unfolding only_logs_def by blast
  show ?thesis
  proof (cases r)
    case (Inl e)
    from assms(2) [of e] obtain r' t' where "\<And>w. h e w = (r', w\<lparr>trace := trace w @ t'\<rparr>)"
      unfolding only_logs_def by blast
    with Inl Inr f show ?thesis
      by (simp add: events_of_def try_except_def bind_def call_def idle_world_def)
  next
    case (Inr u)
    with \<open>outcome = Inr v\<close> f show ?thesis
      by (simp add: events_of_def try_except_def bind_def call_def idle_world_def)
  qed
qed

lemma get_ip_address_first_call: "\<exists>t. events_of (get_ip_address env) = Gethostname # t"
  unfolding get_ip_address_def
  by (rule first_call [where P = sensor_event])
    (intro only_logs_intros only_logs_print | simp split: exn.split | intro conjI allI impI)+

lemma get_cpu_info_calls:
  "Get_cpu_info \<in> set (events_of (get_cpu_info env))"
  "Cpu_percent \<in> set (events_of (get_cpu_info env))"
  by (cases "cpuinfo_get_cpu_info env"; cases "cpu_percent env";
      simp add: events_of_def idle_world_def get_cpu_info_def bind_def try_except_def call_def
        ret_def py_print_def)+

lemma get_ram_info_calls: "Virtual_memory \<in> set (events_of (get_ram_info env))"
  by (cases "virtual_memory env")
    (simp_all add: events_of_def idle_world_def get_ram_info_def bind_def try_except_def call_def
      ret_def py_print_def split: sum.split)

lemma get_gpu_info_calls: "GetGPUs \<in> set (events_of (get_gpu_info True env))"
  by (cases "getGPUs env")
    (simp_all add: events_of_def idle_world_def get_gpu_info_def bind_def try_except_def call_def
      ret_def py_print_def Let_def split: list.split)

lemma sensors_all_called:
  "set [Gethostname, Get_cpu_info, Cpu_percent, Virtual_memory] \<subseteq> set (sensor_events a env)"
  "GetGPUs \<in> set (sensor_events True env)"
  using get_ip_address_first_call [of env] get_cpu_info_calls [of env] get_ram_info_calls [of env]
    get_gpu_info_calls [of env]
  by (auto simp: sensor_events_def)

section \<open>Isolation of the sensors\<close>

lemma published_ignores_sensors:
  "published (env\<lparr>getGPUs := g\<rparr>) = published env"
  "published (env\<lparr>cpuinfo_get_cpu_info := c, cpu_percent := p\<rparr>) = published env"
  "published (env\<lparr>virtual_memory := m\<rparr>) = published env"
  "published (env\<lparr>gethostname := h, gethostbyname := r, socket_new := s1, settimeout := s2,
     connect := s3, getsockname := s4, socket_close := s5\<rparr>) = published env"
  by (simp_all add: published_def)

lemma snapshot_without_gpu:
  "x \<notin> {gpu_name_var, gpu_usage_var} \<Longrightarrow> snapshot a (env\<lparr>getGPUs := g\<rparr>) x = snapshot a env x"
  by (cases x)
    (simp_all add: get_ip_address_def get_cpu_info_def get_ram_info_def cong: if_cong)

lemma snapshot_without_cpu:
  "x \<notin> {cpu_name_var, cpu_usage_var} \<Longrightarrow>
     snapshot a (env\<lparr>cpuinfo_get_cpu_info := c, cpu_percent := p\<rparr>) x = snapshot a env x"
  by (cases x)
    (simp_all add: get_ip_address_def get_gpu_info_def get_ram_info_def cong: if_cong)

lemma snapshot_without_ram:
  "x \<notin> {ram_total_var, ram_usage_var} \<Longrightarrow>
     snapshot a (env\<lparr>virtual_memory := m\<rparr>) x = snapshot a env x"
  by (cases x)
    (simp_all add: get_ip_address_def get_gpu_info_def get_cpu_info_def cong: if_cong)

lemma snapshot_without_ip:
  "x \<noteq> ip_var \<Longrightarrow>
     snapshot a (env\<lparr>gethostname := h, gethostbyname := r, socket_new := s1, settimeout := s2,
       connect := s3, getsockname := s4, socket_close := s5\<rparr>) x = snapshot a env x"
  by (cases x)
    (simp_all add: get_ram_info_def get_gpu_info_def get_cpu_info_def cong: if_cong)

lemma failure_values:
  "unavailable (value_of (get_ip_address (env\<lparr>gethostname := Inl e\<rparr>)))"
  "unavailable (value_of (get_ip_address (env\<lparr>gethostname := Inr h, gethostbyname := (\<lambda>n x. Inl e)\<rparr>)))"
  "value_of (get_cpu_info (env\<lparr>cpuinfo_get_cpu_info := Inl e\<rparr>)) =
     (PStr ''N/A (Error getting name)'', snd (value_of (get_cpu_info env)))"
  "value_of (get_cpu_info (env\<lparr>cpu_percent := Inl e\<rparr>)) =
     (fst (value_of (get_cpu_info env)), PStr ''N/A'')"
  "value_of (get_ram_info (env\<lparr>virtual_memory := Inl e\<rparr>)) = (PStr ''N/A'', PStr ''N/A'')"
  "value_of (get_gpu_info True (env\<lparr>getGPUs := Inl e\<rparr>)) =
     (PStr ''N/A (Error querying GPU)'', PStr ''N/A'')"
  by (cases e; cases "cpuinfo_get_cpu_info env"; cases "cpu_percent env";
      simp add: value_of_def idle_world_def get_ip_address_def get_cpu_info_def get_ram_info_def
        get_gpu_info_def bind_def try_except_def call_def ret_def py_print_def)+
text \<open>
  C1. Each of the four sensor functions returns a value in every environment: an
  exception of a call it makes is caught inside the function. A failing host-name
  lookup or resolution gives an \<open>N/A\<close> address; a failing CPU name query gives
  \<open>"N/A (Error getting name)"\<close> and leaves the usage as it is; a failing usage
  measurement gives \<open>"N/A"\<close> and leaves the name as it is; a failing memory read gives
  \<open>"N/A"\<close> twice; a failing GPU query gives \<open>"N/A (Error querying GPU)"\<close> and
  \<open>"N/A"\<close>. Whatever the calls of one sensor answer, the labels of the other sensors
  show after the tick what they would show otherwise. In every tick all four sensors run,
  in the order network, CPU, memory, GPU, before anything else happens.
\<close>

theorem sensor_isolation:
  "never_raises (get_ip_address env) \<and> never_raises (get_cpu_info env)
   \<and> never_raises (get_ram_info env) \<and> never_raises (get_gpu_info a env)
   \<and> unavailable (value_of (get_ip_address (env\<lparr>gethostname := Inl e\<rparr>)))
   \<and> unavailable (value_of (get_ip_address
         (env\<lparr>gethostname := Inr h, gethostbyname := (\<lambda>n x. Inl e)\<rparr>)))
   \<and> value_of (get_cpu_info (env\<lparr>cpuinfo_get_cpu_info := Inl e\<rparr>)) =
       (PStr ''N/A (Error getting name)'', snd (value_of (get_cpu_info env)))
   \<and> value_of (get_cpu_info (env\<lparr>cpu_percent := Inl e\<rparr>)) =
       (fst (value_of (get_cpu_info env)), PStr ''N/A'')
   \<and> value_of (get_ram_info (env\<lparr>virtual_memory := Inl e\<rparr>)) = (PStr ''N/A'', PStr ''N/A'')
   \<and> value_of (get_gpu_info True (env\<lparr>getGPUs := Inl e\<rparr>)) =
       (PStr ''N/A (Error querying GPU)'', PStr ''N/A'')
   \<and> (\<forall>x. x \<notin> {gpu_name_var, gpu_usage_var} \<longrightarrow>
         display (snd (update_info a (env\<lparr>getGPUs := g\<rparr>) w)) x =
         display (snd (update_info a env w)) x)
   \<and> (\<forall>x. x \<notin> {cpu_name_var, cpu_usage_var} \<longrightarrow>
         display (snd (update_info a (env\<lparr>cpuinfo_get_cpu_info := c, cpu_percent := p\<rparr>) w)) x =
         display (snd (update_info a env w)) x)
   \<and> (\<forall>x. x \<notin> {ram_total_var, ram_usage_var} \<longrightarrow>
         display (snd (update_info a (env\<lparr>virtual_memory := m\<rparr>) w)) x =
         display (snd (update_info a env w)) x)
   \<and> (\<forall>x. x \<noteq> ip_var \<longrightarrow>
         display (snd (update_info a
           (env\<lparr>gethostname := hn, gethostbyname := r, socket_new := s1, settimeout := s2,
              connect := s3, getsockname := s4, socket_close := s5\<rparr>) w)) x =
         display (snd (update_info a env w)) x)
   \<and> set [Gethostname, Get_cpu_info, Cpu_percent, Virtual_memory] \<subseteq> set (sensor_events a env)
   \<and> GetGPUs \<in> set (sensor_events True env)
   \<and> (\<exists>t. trace (snd (update_info a env w)) = trace w @ sensor_events a env @ t)"
  by (intro conjI allI impI get_ip_address_returns get_cpu_info_returns get_ram_info_returns
      get_gpu_info_returns failure_values sensors_all_called)
    (simp_all add: display_after_tick trace_after_tick published_ignores_sensors
      snapshot_without_gpu snapshot_without_cpu snapshot_without_ram snapshot_without_ip)

lemma published_test_host: "published (test_host\<lparr>getGPUs := g\<rparr>) = publish_order"
  by (simp add: published_def test_host_def publish_order_def)

theorem sensor_isolation_witness:
  "cpu_name_var \<notin> {gpu_name_var, gpu_usage_var}
   \<and> display (snd (update_info True
         (test_host\<lparr>getGPUs := Inl (OtherException ''driver fault'')\<rparr>) idle_world)) cpu_name_var =
       PStr ''Test CPU''
   \<and> display (snd (update_info True
         (test_host\<lparr>getGPUs := Inl (OtherException ''driver fault'')\<rparr>) idle_world)) gpu_name_var =
       PStr ''N/A (Error querying GPU)''"
proof -
  let ?broken = "test_host\<lparr>getGPUs := Inl (OtherException ''driver fault'')\<rparr>"
  have "display (snd (update_info True ?broken idle_world)) cpu_name_var =
      display (snd (update_info True test_host idle_world)) cpu_name_var"
    using sensor_isolation [of test_host True _ _ "Inl (OtherException ''driver fault'')" idle_world]
    by simp
  moreover have "display (snd (update_info True test_host idle_world)) cpu_name_var = PStr ''Test CPU''"
    using published_test_host [of "getGPUs test_host"]
    by (simp add: display_after_tick test_host_values publish_order_def)
  moreover have "display (snd (update_info True ?broken idle_world)) gpu_name_var =
      PStr ''N/A (Error querying GPU)''"
    using sensor_isolation [of ?broken True "OtherException ''driver fault''"]
    by (simp add: display_after_tick published_test_host publish_order_def)
  ultimately show ?thesis by simp
qed

section \<open>The snapshot and the display\<close>



lemma first_error_split:
  "first_error env xs = Some e \<Longrightarrow>
     \<exists>y rest. xs = takeWhile (\<lambda>x. stringvar_set env x = Inr ()) xs @ y # rest
       \<and> stringvar_set env y = Inl e"
proof (induction xs)
  case Nil
  then show ?case by simp
next
  case (Cons x xs)
  show ?case
  proof (cases "stringvar_set env x")
    case (Inl e')
    with Cons.prems show ?thesis by simp
  next
    case (Inr u)
    with Cons show ?thesis by simp
  qed
qed

lemma fault_split:
  "fault env = Some e \<Longrightarrow>
     \<exists>y rest. publish_order = published env @ y # rest \<and> stringvar_set env y = Inl e"
  unfolding fault_def published_def by (rule first_error_split)


lemma sensor_events_ok: "list_all sensor_event (sensor_events a env)"
  by (simp add: sensor_events_def get_ip_address_run get_cpu_info_run get_ram_info_run
      get_gpu_info_run)
lemma set_fails_at_simps:
  "stringvar_set (set_fails_at y) x = (if x = y then Inl (OtherException ''TclError'') else Inr ())"
  "snapshot a (set_fails_at y) = snapshot a test_host"
  by (simp_all add: set_fails_at_def snapshot_ignores_set)

lemma published_set_fails_at:
  "published (set_fails_at ip_var) = []"
  "published (set_fails_at ram_total_var) = [ip_var, cpu_name_var, cpu_usage_var]"
  by (simp_all add: published_def publish_order_def set_fails_at_simps)

lemma fault_set_fails_at:
  "fault (set_fails_at ip_var) = Some (OtherException ''TclError'')"
  "fault (set_fails_at ram_total_var) = Some (OtherException ''TclError'')"
  by (simp_all add: fault_def publish_order_def set_fails_at_simps)



section \<open>A tick that fails\<close>

text \<open>
  C4, as the code has it. When a \<open>set\<close> call raises, \<open>update_info\<close> catches the
  exception and prints it, returns normally, and arms the timer for the next tick as its
  last call. The labels set before the failing call show the new tick's values; the label
  of the failing call and the labels after it keep what they showed. So no label changes
  only when the first \<open>set\<close> call is the one that raises. The claim as stated, that no
  field is changed by the failed tick, fails when a later \<open>set\<close> call raises.
\<close>

theorem tick_failure:
  "fault env = Some e \<longrightarrow>
     fst (update_info a env w) = Inr ()
     \<and> Print (''Error during update: '' @ exn_str e) \<in> set (trace (snd (update_info a env w)))
     \<and> last (trace (snd (update_info a env w))) = After 1000
     \<and> (\<exists>y rest. publish_order = published env @ y # rest \<and> stringvar_set env y = Inl e)
     \<and> (\<forall>x. display (snd (update_info a env w)) x =
           (if x \<in> set (published env) then snapshot a env x else display w x))
     \<and> (published env = [] \<longrightarrow> display (snd (update_info a env w)) = display w)"
proof
  assume f: "fault env = Some e"
  have "fst (update_info a env w) = Inr ()"
    by (simp add: update_info_run)
  moreover have "Print (''Error during update: '' @ exn_str e) \<in> set (trace (snd (update_info a env w)))"
    by (simp add: trace_after_tick f)
  moreover have "last (trace (snd (update_info a env w))) = After 1000"
    by (simp add: trace_after_tick)
  moreover note fault_split [OF f]
  moreover have "\<forall>x. display (snd (update_info a env w)) x =
           (if x \<in> set (published env) then snapshot a env x else display w x)"
    by (simp add: display_after_tick)
  moreover have "published env = [] \<longrightarrow> display (snd (update_info a env w)) = display w"
    by (auto simp: display_after_tick)
  ultimately show "fst (update_info a env w) = Inr ()
     \<and> Print (''Error during update: '' @ exn_str e) \<in> set (trace (snd (update_info a env w)))
     \<and> last (trace (snd (update_info a env w))) = After 1000
     \<and> (\<exists>y rest. publish_order = published env @ y # rest \<and> stringvar_set env y = Inl e)
     \<and> (\<forall>x. display (snd (update_info a env w)) x =
           (if x \<in> set (published env) then snapshot a env x else display w x))
     \<and> (published env = [] \<longrightarrow> display (snd (update_info a env w)) = display w)"
    by blast
qed

theorem tick_failure_witness:
  "fault (set_fails_at ip_var) = Some (OtherException ''TclError'')
   \<and> published (set_fails_at ip_var) = []
   \<and> display (snd (update_info True (set_fails_at ip_var) idle_world)) = fetching
   \<and> last (trace (snd (update_info True (set_fails_at ip_var) idle_world))) = After 1000
   \<and> fault (set_fails_at ram_total_var) = Some (OtherException ''TclError'')
   \<and> display (snd (update_info True (set_fails_at ram_total_var) idle_world)) cpu_name_var =
       PStr ''Test CPU''
   \<and> display (snd (update_info True (set_fails_at ram_total_var) idle_world)) ram_total_var =
       PStr ''Fetching...''
   \<and> Print ''Error during update: TclError''
       \<in> set (trace (snd (update_info True (set_fails_at ram_total_var) idle_world)))"
  using tick_failure [of "set_fails_at ip_var" "OtherException ''TclError''" True idle_world]
    tick_failure [of "set_fails_at ram_total_var" "OtherException ''TclError''" True idle_world]
  by (simp add: fault_set_fails_at published_set_fails_at idle_world_def set_fails_at_simps
      test_host_values fetching_def)

theorem tick_failure_counterexample:
  "fault (set_fails_at ram_total_var) = Some (OtherException ''TclError'')
   \<and> display (snd (update_info True (test_host\<lparr>getsockname := Inr ''10.0.0.7''\<rparr>) idle_world))
       ip_var = PStr ''10.0.0.7''
   \<and> display (snd (update_info True (set_fails_at ram_total_var)
        (snd (update_info True (test_host\<lparr>getsockname := Inr ''10.0.0.7''\<rparr>) idle_world))))
       ip_var = PStr ''192.168.1.50''"
proof -
  have p: "published (test_host\<lparr>getsockname := Inr ''10.0.0.7''\<rparr>) = publish_order"
    by (simp add: published_def test_host_def)
  have v: "value_of (get_ip_address (test_host\<lparr>getsockname := Inr ''10.0.0.7''\<rparr>)) = PStr ''10.0.0.7''"
    by (simp add: value_of_def idle_world_def test_host_def get_ip_address_def bind_def
        try_except_def try_finally_def call_def ret_def)
  show ?thesis
    by (simp add: fault_set_fails_at display_after_tick published_set_fails_at p v
        publish_order_def set_fails_at_simps test_host_values)
qed
section \<open>The first sample\<close>




section \<open>Ticks do not overlap\<close>

lemma tick_events_shape:
  "tick_events a env =
     (sensor_events a env @
      map (\<lambda>x. Set_var x (snapshot a env x)) (attempted env) @
      (case fault env of
         None \<Rightarrow> []
       | Some e \<Rightarrow> [Print (''Error during update: '' @ exn_str e)])) @
     [After 1000]"
  by (simp add: tick_events_def events_of_def trace_after_tick idle_world_def)

lemma init_events: "events_of (init_app a env) = tick_events a env"
  by (simp add: tick_events_def events_of_def init_app_def trace_after_tick idle_world_def)

lemma sensor_event_arms: "sensor_event e \<Longrightarrow> arms e = 0"
  by (cases e) simp_all

lemma tick_arms_last:
  "\<exists>body. tick_events a env = body @ [After 1000] \<and> list_all (\<lambda>e. arms e = 0) body"
proof -
  have "list_all (\<lambda>e. arms e = 0) (sensor_events a env)"
    using sensor_events_ok [of a env] by (auto simp: list_all_iff sensor_event_arms)
  moreover have "list_all (\<lambda>e. arms e = 0) (map (\<lambda>x. Set_var x (snapshot a env x)) (attempted env))"
    by (simp add: list_all_iff)
  moreover have "list_all (\<lambda>e. arms e = 0)
      (case fault env of None \<Rightarrow> [] | Some e \<Rightarrow> [Print (''Error during update: '' @ exn_str e)])"
    by (simp split: option.split)
  ultimately show ?thesis
    unfolding tick_events_shape by (intro exI conjI) (rule refl, simp)
qed
lemma arms_last_tick: "arms_last (tick_events a env)"
  using tick_arms_last [of a env] by (auto simp: arms_last_def)

lemma arms_last_Cons:
  assumes "arms_last (e # es)" and "es \<noteq> []"
  shows "arms e = 0" and "arms_last es"
proof -
  from assms(1) obtain body ms where r: "e # es = body @ [After ms]"
    and b: "list_all (\<lambda>e. arms e = 0) body"
    unfolding arms_last_def by blast
  from r assms(2) obtain body' where body: "body = e # body'"
    by (cases body) auto
  with b show "arms e = 0" by simp
  from r body b show "arms_last es"
    unfolding arms_last_def by auto
qed

lemma arms_last_single: "arms_last [e] \<Longrightarrow> arms e = 1"
  unfolding arms_last_def by auto

lemma reachable_invariant:
  "reachable a s \<Longrightarrow>
     pending s + length (running s) = 1 \<and> list_all arms_last (running s)"
proof (induction rule: reachable.induct)
  case (constructed env)
  show ?case by (simp add: init_events arms_last_tick)
next
  case (stepped s s')
  from stepped.hyps(2) stepped.IH show ?case
  proof (cases rule: step.cases)
    case (fire env)
    with stepped.IH show ?thesis by (cases "running s") (auto simp: arms_last_tick)
  next
    case (make_call before e es behind)
    with stepped.IH have "arms_last (e # es)" by simp
    with make_call have "arms e = 0" "arms_last es"
      by (auto dest: arms_last_Cons)
    with make_call stepped.IH show ?thesis by simp
  next
    case (last_call before e behind)
    with stepped.IH have "arms_last [e]" by simp
    then have "arms e = 1" by (rule arms_last_single)
    with last_call stepped.IH show ?thesis by simp
  qed
qed
lemma tick_completes:
  "arms_last r \<Longrightarrow> reachable a \<lparr>pending = p, running = [r]\<rparr> \<Longrightarrow>
     reachable a \<lparr>pending = Suc p, running = []\<rparr>"
proof (induction r arbitrary: p)
  case Nil
  then show ?case by (simp add: arms_last_def)
next
  case (Cons e es)
  show ?case
  proof (cases "es = []")
    case True
    with Cons.prems(1) have "arms e = 1" by (simp add: arms_last_single)
    moreover have "step a \<lparr>pending = p, running = [e # es]\<rparr>
        \<lparr>pending = pending \<lparr>pending = p, running = [e # es]\<rparr> + arms e, running = [] @ []\<rparr>"
      using True by (intro step.last_call) simp
    ultimately have "step a \<lparr>pending = p, running = [e # es]\<rparr> \<lparr>pending = Suc p, running = []\<rparr>"
      by simp
    with Cons.prems(2) show ?thesis by (rule reachable.stepped)
  next
    case False
    with Cons.prems(1) have e: "arms e = 0" and es: "arms_last es"
      by (auto dest: arms_last_Cons)
    have "step a \<lparr>pending = p, running = [e # es]\<rparr>
        \<lparr>pending = pending \<lparr>pending = p, running = [e # es]\<rparr> + arms e, running = [] @ es # []\<rparr>"
      using False by (intro step.make_call) simp_all
    with e have "step a \<lparr>pending = p, running = [e # es]\<rparr> \<lparr>pending = p, running = [es]\<rparr>"
      by simp
    with Cons.prems(2) have "reachable a \<lparr>pending = p, running = [es]\<rparr>"
      by (rule reachable.stepped)
    with es show ?thesis by (rule Cons.IH)
  qed
qed

lemma first_tick_completes: "reachable a \<lparr>pending = 1, running = []\<rparr>"
proof -
  have "reachable a \<lparr>pending = 0, running = [events_of (init_app a test_host)]\<rparr>"
    by (rule reachable.constructed)
  then have "reachable a \<lparr>pending = Suc 0, running = []\<rparr>"
    by (rule tick_completes [rotated]) (simp add: init_events arms_last_tick)
  then show ?thesis by simp
qed

lemma second_tick_starts: "reachable a \<lparr>pending = 0, running = [tick_events a env]\<rparr>"
proof -
  have "step a \<lparr>pending = 1, running = []\<rparr>
      \<lparr>pending = pending \<lparr>pending = 1, running = []\<rparr> - 1,
        running = running \<lparr>pending = 1, running = []\<rparr> @ [tick_events a env]\<rparr>"
    by (rule step.fire) simp
  then have "step a \<lparr>pending = 1, running = []\<rparr> \<lparr>pending = 0, running = [tick_events a env]\<rparr>"
    by simp
  with first_tick_completes show ?thesis by (rule reachable.stepped)
qed

text \<open>
  C2. The calls of one tick are the calls of the sensors, the \<open>set\<close> calls and, on a
  failure, the print of the error; none of them arms a timer. The call
  \<open>root.after(1000, self.update_info)\<close> comes after all of them, as the last call of
  the tick. So in every state the refresh loop can reach, however long a tick takes and
  whenever an armed timer fires, the armed timers and the running ticks are one in total:
  at most one \<open>update_info\<close> is in flight, and while it runs no timer is armed that
  could start a second one.
\<close>

theorem ticks_never_overlap:
  "tick_events a env =
     (sensor_events a env @
      map (\<lambda>x. Set_var x (snapshot a env x)) (attempted env) @
      (case fault env of
         None \<Rightarrow> []
       | Some e \<Rightarrow> [Print (''Error during update: '' @ exn_str e)])) @
     [After 1000]
   \<and> (\<exists>body. tick_events a env = body @ [After 1000] \<and> list_all (\<lambda>e. arms e = 0) body)
   \<and> (reachable a s \<longrightarrow> length (running s) \<le> 1 \<and> pending s + length (running s) = 1)"
  using tick_events_shape [of a env] tick_arms_last [of a env] reachable_invariant [of a s]
  by auto

theorem ticks_never_overlap_witness:
  "reachable True \<lparr>pending = 1, running = []\<rparr>
   \<and> reachable True \<lparr>pending = 0, running = [tick_events True test_host]\<rparr>
   \<and> length (running \<lparr>pending = 0, running = [tick_events True test_host]\<rparr>) \<le> 1
   \<and> pending \<lparr>pending = 1, running = []\<rparr> + length (running \<lparr>pending = 1, running = []\<rparr>) = 1
   \<and> (\<exists>body. tick_events True test_host = body @ [After 1000])"
  using ticks_never_overlap [of True test_host "\<lparr>pending = 0, running = [tick_events True test_host]\<rparr>"]
    ticks_never_overlap [of True test_host "\<lparr>pending = 1, running = []\<rparr>"]
    first_tick_completes [of True] second_tick_starts [of True test_host]
  by auto

section \<open>The network sensor\<close>

lemma outbound_probe_run:
  "try_finally
     (try_except
        (bind (call Connect (connect env)) (\<lambda>u. call Getsockname (getsockname env)))
        (\<lambda>e. call (Gethostbyname h) (gethostbyname env 1 h)))
     (call Socket_close (socket_close env)) w =
   (fst (outbound_probe env h), w\<lparr>trace := trace w @ snd (outbound_probe env h)\<rparr>)"
  by (cases "connect env"; cases "getsockname env"; cases "socket_close env")
    (simp_all add: outbound_probe_def try_finally_def try_except_def bind_def call_def)

lemma call_apply: "call ev outcome w = (outcome, w\<lparr>trace := trace w @ [ev]\<rparr>)"
  by (simp add: call_def)

lemma resolve_address_run:
  "bind (call Gethostname (gethostname env)) (\<lambda>hostname.
   bind (call (Gethostbyname hostname) (gethostbyname env 0 hostname)) (\<lambda>ip_address.
     if prefix ''127.'' ip_address then
       bind (call Socket_new (socket_new env)) (\<lambda>s.
       bind (call Settimeout (settimeout env)) (\<lambda>u.
       bind (try_finally
               (try_except
                  (bind (call Connect (connect env)) (\<lambda>u.
                     call Getsockname (getsockname env)))
                  (\<lambda>e. call (Gethostbyname hostname) (gethostbyname env 1 hostname)))
               (call Socket_close (socket_close env)))
         (\<lambda>ip_address. ret (PStr ip_address))))
     else ret (PStr ip_address))) w =
   (map_sum id PStr (fst (resolve_address env)),
    w\<lparr>trace := trace w @ snd (resolve_address env)\<rparr>)"
proof (cases "gethostname env")
  case (Inl e)
  then show ?thesis by (simp add: resolve_address_def bind_apply call_def)
next
  case h: (Inr h)
  show ?thesis
  proof (cases "gethostbyname env 0 h")
    case (Inl e)
    with h show ?thesis by (simp add: resolve_address_def bind_apply call_def)
  next
    case ip: (Inr ip)
    show ?thesis
    proof (cases "prefix ''127.'' ip")
      case False
      with h ip show ?thesis by (simp add: resolve_address_def bind_apply call_def ret_def)
    next
      case True
      show ?thesis
      proof (cases "socket_new env")
        case (Inl e)
        with h ip True show ?thesis by (simp add: resolve_address_def bind_apply call_def)
      next
        case s: (Inr s)
        show ?thesis
        proof (cases "settimeout env")
          case (Inl e)
          with h ip True s show ?thesis by (simp add: resolve_address_def bind_apply call_def)
        next
          case (Inr u)
          with h ip True s show ?thesis
            by (cases "fst (outbound_probe env h)")
              (simp_all add: resolve_address_def call_apply bind_apply ret_def outbound_probe_run
                del: One_nat_def)
        qed
      qed
    qed
  qed
qed

lemma get_ip_address_calls:
  "get_ip_address env w =
     (case resolve_address env of
        (Inr ip, t) \<Rightarrow> (Inr (PStr ip), w\<lparr>trace := trace w @ t\<rparr>)
      | (Inl e, t) \<Rightarrow> (Inr (fst (ip_handler e)), w\<lparr>trace := trace w @ t @ snd (ip_handler e)\<rparr>))"
proof (cases "resolve_address env")
  case (Pair r t)
  show ?thesis
  proof (cases r)
    case (Inr ip)
    with Pair show ?thesis
      unfolding get_ip_address_def try_except_apply resolve_address_run by simp
  next
    case (Inl e)
    with Pair show ?thesis
      unfolding get_ip_address_def try_except_apply resolve_address_run
      by (cases e) (simp_all add: ret_def bind_def py_print_def call_def)
  qed
qed

lemma ip_events:
  "events_of (get_ip_address env) =
     (case resolve_address env of
        (Inr ip, t) \<Rightarrow> t
      | (Inl e, t) \<Rightarrow> t @ snd (ip_handler e))"
  by (simp add: events_of_def get_ip_address_calls idle_world_def split: prod.split sum.split)

lemma outbound_probe_calls:
  "\<exists>t. snd (outbound_probe env h) = Connect # t @ [Socket_close]"
  by (cases "connect env"; cases "getsockname env") (simp_all add: outbound_probe_def)

lemma ip_handler_prints: "Connect \<notin> set (snd (ip_handler e))"
  by (cases e) simp_all

lemma ip_socket_closed:
  assumes "Connect \<in> set (events_of (get_ip_address env))"
  shows "Socket_close \<in> set (dropWhile (\<lambda>e. e \<noteq> Connect) (events_of (get_ip_address env)))"
proof -
  obtain r t where rt: "resolve_address env = (r, t)" by (cases "resolve_address env")
  have ev: "\<exists>p. events_of (get_ip_address env) = t @ p \<and> Connect \<notin> set p"
    using rt ip_handler_prints by (cases r) (simp_all add: ip_events)
  with assms have c: "Connect \<in> set t" by auto
  have "\<exists>pre post. t = pre @ Connect # post @ [Socket_close] \<and> Connect \<notin> set pre"
  proof (cases "gethostname env")
    case (Inl e)
    with rt c show ?thesis by (auto simp: resolve_address_def)
  next
    case h: (Inr h)
    show ?thesis
    proof (cases "gethostbyname env 0 h")
      case (Inl e)
      with rt c h show ?thesis by (auto simp: resolve_address_def)
    next
      case ip: (Inr ip)
      show ?thesis
      proof (cases "prefix ''127.'' ip \<and> socket_new env = Inr () \<and> settimeout env = Inr ()")
        case True
        obtain post where "snd (outbound_probe env h) = Connect # post @ [Socket_close]"
          using outbound_probe_calls by blast
        with True rt h ip have "t = [Gethostname, Gethostbyname h, Socket_new, Settimeout] @
            Connect # post @ [Socket_close]"
          by (auto simp: resolve_address_def)
        then show ?thesis
          by (intro exI [of _ "[Gethostname, Gethostbyname h, Socket_new, Settimeout]"]
              exI [of _ post]) simp
      next
        case False
        with rt c h ip show ?thesis
          by (cases "socket_new env"; cases "settimeout env")
            (auto simp: resolve_address_def split: if_splits)
      qed
    qed
  qed
  then obtain pre post where t: "t = pre @ Connect # post @ [Socket_close]"
    and pre: "Connect \<notin> set pre" by blast
  from ev obtain p where "events_of (get_ip_address env) = t @ p" by blast
  with t pre show ?thesis
    by (simp add: dropWhile_append3)
qed

lemma ip_result:
  "fst (get_ip_address env w) =
     Inr (case fst (resolve_address env) of Inr ip \<Rightarrow> PStr ip | Inl e \<Rightarrow> fst (ip_handler e))"
  by (simp add: get_ip_address_calls split: prod.split sum.split)

lemma ip_returns_string: "\<exists>s. fst (get_ip_address env w) = Inr (PStr s)"
proof (cases "fst (resolve_address env)")
  case (Inl e)
  then show ?thesis by (cases e) (simp_all add: ip_result)
next
  case (Inr ip)
  then show ?thesis by (simp add: ip_result)
qed

lemma ip_direct:
  assumes "gethostname env = Inr h" and "gethostbyname env 0 h = Inr ip" and "\<not> prefix ''127.'' ip"
  shows "get_ip_address env w = (Inr (PStr ip), w\<lparr>trace := trace w @ [Gethostname, Gethostbyname h]\<rparr>)"
  using assms by (simp add: get_ip_address_calls resolve_address_def)

lemma ip_trick_works:
  assumes "gethostname env = Inr h" and "gethostbyname env 0 h = Inr ip" and "prefix ''127.'' ip"
    and "socket_new env = Inr ()" and "settimeout env = Inr ()" and "socket_close env = Inr ()"
    and "connect env = Inr ()" and "getsockname env = Inr out"
  shows "get_ip_address env w =
    (Inr (PStr out),
     w\<lparr>trace := trace w @ [Gethostname, Gethostbyname h, Socket_new, Settimeout, Connect,
        Getsockname, Socket_close]\<rparr>)"
  using assms by (simp add: get_ip_address_calls resolve_address_def outbound_probe_def)

lemma ip_trick_fails:
  assumes "gethostname env = Inr h" and "gethostbyname env 0 h = Inr ip" and "prefix ''127.'' ip"
    and "socket_new env = Inr ()" and "settimeout env = Inr ()" and "socket_close env = Inr ()"
    and "connect env = Inl e' \<or> getsockname env = Inl e'"
  shows "fst (get_ip_address env w) =
    Inr (case gethostbyname env 1 h of Inr ip' \<Rightarrow> PStr ip' | Inl e \<Rightarrow> fst (ip_handler e))"
  using assms
  by (cases "connect env"; cases "getsockname env")
    (auto simp: ip_result resolve_address_def outbound_probe_def)

lemma ip_uncaught:
  "gethostname env = Inl e \<Longrightarrow> fst (get_ip_address env w) = Inr (fst (ip_handler e))"
  "gethostname env = Inr h \<Longrightarrow> gethostbyname env 0 h = Inl e \<Longrightarrow>
     fst (get_ip_address env w) = Inr (fst (ip_handler e))"
  "gethostname env = Inr h \<Longrightarrow> gethostbyname env 0 h = Inr ip \<Longrightarrow> prefix ''127.'' ip \<Longrightarrow>
     socket_new env = Inl e \<Longrightarrow> fst (get_ip_address env w) = Inr (fst (ip_handler e))"
  by (simp_all add: ip_result resolve_address_def)
lemma digit_char_cases:
  "digit_char n \<in> set ''0123456789''"
proof -
  have "n mod 10 < length ''0123456789''" by simp
  then show ?thesis unfolding digit_char_def by (rule nth_mem)
qed

lemma digit_char_inj: "digit_char n = digit_char k \<longleftrightarrow> n mod 10 = k mod 10"
  unfolding digit_char_def by (rule nth_eq_iff_index_eq) simp_all

lemma digit_char_eq:
  "digit_char n = CHR ''1'' \<longleftrightarrow> n mod 10 = 1"
  "digit_char n = CHR ''2'' \<longleftrightarrow> n mod 10 = 2"
  "digit_char n = CHR ''7'' \<longleftrightarrow> n mod 10 = 7"
  using digit_char_inj [of n 1] digit_char_inj [of n 2] digit_char_inj [of n 7]
  by (simp_all add: digit_char_def)

lemma str_nat_no_point: "CHR ''.'' \<notin> set (str_nat n)"
proof (induction n rule: str_nat.induct)
  case (1 n)
  have d: "digit_char n \<noteq> CHR ''.''"
    using digit_char_cases [of n] by auto
  show ?case
  proof (cases "n < 10")
    case True
    with d show ?thesis by (simp add: str_nat.simps [of n])
  next
    case False
    with d "1.IH" show ?thesis by (simp add: str_nat.simps [of n])
  qed
qed

lemma str_nat_not_Nil: "str_nat n \<noteq> []"
  by (simp add: str_nat.simps [of n])

lemma str_nat_127: "str_nat n = ''127'' \<longleftrightarrow> n = 127"
proof
  assume "n = 127"
  moreover have "str_nat 127 = ''127''" by code_simp
  ultimately show "str_nat n = ''127''" by simp
next
  assume s: "str_nat n = ''127''"
  have n: "\<not> n < 10" using s by (auto simp: str_nat.simps [of n])
  with s have 1: "str_nat (n div 10) = ''12''" and d1: "n mod 10 = 7"
    by (simp_all add: str_nat.simps [of n] digit_char_eq)
  have m: "\<not> n div 10 < 10" using 1 by (auto simp: str_nat.simps [of "n div 10"])
  with 1 have 2: "str_nat (n div 10 div 10) = ''1''" and d2: "n div 10 mod 10 = 2"
    by (simp_all add: str_nat.simps [of "n div 10"] digit_char_eq)
  have k: "n div 10 div 10 < 10"
  proof (rule ccontr)
    assume "\<not> n div 10 div 10 < 10"
    with 2 show False
      using str_nat_not_Nil [of "n div 10 div 10 div 10"]
      by (simp add: str_nat.simps [of "n div 10 div 10"])
  qed
  with 2 have d3: "n div 10 div 10 mod 10 = 1"
    by (simp add: str_nat.simps [of "n div 10 div 10"] digit_char_eq)
  with k have d4: "n div 10 div 10 = 1" by simp
  define a where "a = n div 10"
  from d4 d2 have "a div 10 = 1" "a mod 10 = 2" by (simp_all add: a_def)
  then have "a = 12" by presburger
  with d1 show "n = 127" unfolding a_def by presburger
qed

lemma prefix_127:
  assumes "CHR ''.'' \<notin> set s"
  shows "prefix ''127.'' (s @ CHR ''.'' # rest) \<longleftrightarrow> s = ''127''"
proof
  assume "s = ''127''"
  then show "prefix ''127.'' (s @ CHR ''.'' # rest)" by simp
next
  assume p: "prefix ''127.'' (s @ CHR ''.'' # rest)"
  show "s = ''127''"
  proof (cases s)
    case Nil
    with p show ?thesis by simp
  next
    case s1: (Cons c1 t1)
    show ?thesis
    proof (cases t1)
      case Nil
      with p s1 show ?thesis by simp
    next
      case s2: (Cons c2 t2)
      show ?thesis
      proof (cases t2)
        case Nil
        with p s1 s2 show ?thesis by simp
      next
        case s3: (Cons c3 t3)
        show ?thesis
        proof (cases t3)
          case Nil
          with p s1 s2 s3 show ?thesis by simp
        next
          case (Cons c4 t4)
          with p s1 s2 s3 assms show ?thesis by simp
        qed
      qed
    qed
  qed
qed

lemma loopback_prefix: "prefix ''127.'' (ipv4_text a b c d) \<longleftrightarrow> a = 127"
  using prefix_127 [OF str_nat_no_point, of a "str_nat b @ ''.'' @ str_nat c @ ''.'' @ str_nat d"]
  by (simp add: ipv4_text_def str_nat_127)

text \<open>
  C5, as the code has it. \<open>get_ip_address\<close> never raises and always returns a string.
  (a) It asks for the host name and resolves it; an address that does not start with
  \<open>127.\<close> is returned after these two calls. The text of an IPv4 address starts
  with \<open>127.\<close> exactly when its first number is 127, that is, when the address is
  in 127.0.0.0/8. (b) For an address that starts with
  \<open>127.\<close> it creates a datagram socket, sets its timeout, connects it and reads the
  socket's own address, which it returns; once connect has been called the socket is
  closed, whatever connect, the read and the second resolution do. (c) When connect or
  the read raises, the host name is resolved a second time and the answer of that second
  resolution is returned; it is the originally resolved address when the resolver answers
  as it did the first time. An exception that reaches the handlers gives
  \<open>"N/A (Network Error)"\<close> when it is a \<open>socket.gaierror\<close> and \<open>"N/A (Error)"\<close>
  otherwise. The claim as stated, that every failure yields the network error value, fails
  for an exception that is not a \<open>gaierror\<close>, and the address returned after a failed
  trick is the second answer of the resolver, not the first.
\<close>

theorem network_sensor:
  "never_raises (get_ip_address env)
   \<and> (\<exists>s. fst (get_ip_address env w) = Inr (PStr s))
   \<and> (gethostname env = Inr h \<and> gethostbyname env 0 h = Inr ip \<longrightarrow>
        (\<not> prefix ''127.'' ip \<longrightarrow>
           get_ip_address env w =
             (Inr (PStr ip), w\<lparr>trace := trace w @ [Gethostname, Gethostbyname h]\<rparr>))
      \<and> (prefix ''127.'' ip \<and> socket_new env = Inr () \<and> settimeout env = Inr ()
           \<and> socket_close env = Inr () \<longrightarrow>
           (connect env = Inr () \<and> getsockname env = Inr out \<longrightarrow>
              get_ip_address env w =
                (Inr (PStr out),
                 w\<lparr>trace := trace w @ [Gethostname, Gethostbyname h, Socket_new, Settimeout,
                    Connect, Getsockname, Socket_close]\<rparr>))
         \<and> (connect env = Inl e' \<or> getsockname env = Inl e' \<longrightarrow>
              (gethostbyname env 1 h = Inr ip' \<longrightarrow> fst (get_ip_address env w) = Inr (PStr ip'))
            \<and> (gethostbyname env 1 h = gethostbyname env 0 h \<longrightarrow>
                 fst (get_ip_address env w) = Inr (PStr ip))
            \<and> (gethostbyname env 1 h = Inl e \<longrightarrow>
                 fst (get_ip_address env w) = Inr (fst (ip_handler e)))))
      \<and> (prefix ''127.'' ip \<and> socket_new env = Inl e \<longrightarrow>
           fst (get_ip_address env w) = Inr (fst (ip_handler e))))
   \<and> (Connect \<in> set (events_of (get_ip_address env)) \<longrightarrow>
        Socket_close \<in> set (dropWhile (\<lambda>e. e \<noteq> Connect) (events_of (get_ip_address env))))
   \<and> (gethostname env = Inl e \<longrightarrow> fst (get_ip_address env w) = Inr (fst (ip_handler e)))
   \<and> (gethostname env = Inr h \<and> gethostbyname env 0 h = Inl e \<longrightarrow>
        fst (get_ip_address env w) = Inr (fst (ip_handler e)))
   \<and> fst (ip_handler (Gaierror m)) = PStr ''N/A (Network Error)''
   \<and> fst (ip_handler (OtherException m)) = PStr ''N/A (Error)''
   \<and> (prefix ''127.'' (ipv4_text a b c d) \<longleftrightarrow> a = 127)"
proof -
  have trick: "fst (get_ip_address env w) =
      Inr (case gethostbyname env 1 h of Inr ip' \<Rightarrow> PStr ip' | Inl e \<Rightarrow> fst (ip_handler e))"
    if "gethostname env = Inr h" "gethostbyname env 0 h = Inr ip" "prefix ''127.'' ip"
      "socket_new env = Inr ()" "settimeout env = Inr ()" "socket_close env = Inr ()"
      "connect env = Inl e' \<or> getsockname env = Inl e'"
    using that by (rule ip_trick_fails)
  show ?thesis
    by (intro conjI impI get_ip_address_returns ip_returns_string ip_socket_closed
        loopback_prefix)
      (simp_all add: ip_direct ip_trick_works ip_uncaught trick)
qed

theorem network_sensor_witness:
  "get_ip_address test_host idle_world =
     (Inr (PStr ''192.168.1.50''),
      idle_world\<lparr>trace := [Gethostname, Gethostbyname ''workstation'', Socket_new, Settimeout,
        Connect, Getsockname, Socket_close]\<rparr>)
   \<and> fst (get_ip_address (test_host\<lparr>connect := Inl (OtherException ''unreachable'')\<rparr>) idle_world) =
       Inr (PStr ''127.0.0.1'')"
proof -
  have "get_ip_address test_host idle_world =
     (Inr (PStr ''192.168.1.50''),
      idle_world\<lparr>trace := trace idle_world @ [Gethostname, Gethostbyname ''workstation'',
        Socket_new, Settimeout, Connect, Getsockname, Socket_close]\<rparr>)"
    using network_sensor [of test_host idle_world "''workstation''" "''127.0.0.1''"
        "''192.168.1.50''"]
    by (simp add: test_host_def)
  moreover have "fst (get_ip_address (test_host\<lparr>connect := Inl (OtherException ''unreachable'')\<rparr>)
      idle_world) = Inr (PStr ''127.0.0.1'')"
    using network_sensor [of "test_host\<lparr>connect := Inl (OtherException ''unreachable'')\<rparr>"
        idle_world "''workstation''" "''127.0.0.1''" _ "OtherException ''unreachable''"]
    by (simp add: test_host_def)
  ultimately show ?thesis by (simp add: idle_world_def)
qed

theorem network_error_counterexample:
  "fst (get_ip_address
      (test_host\<lparr>socket_new := Inl (OtherException ''[Errno 24] Too many open files'')\<rparr>)
      idle_world) = Inr (PStr ''N/A (Error)'')
   \<and> PStr ''N/A (Error)'' \<noteq> PStr ''N/A (Network Error)''
   \<and> fst (get_ip_address
      (test_host\<lparr>connect := Inl (OtherException ''unreachable''),
         gethostbyname := (\<lambda>n h. if n = 0 then Inr ''127.0.0.1'' else Inr ''127.0.1.1'')\<rparr>)
      idle_world) = Inr (PStr ''127.0.1.1'')"
  by (simp add: ip_result resolve_address_def outbound_probe_def test_host_def)

section \<open>Ranges of the readings\<close>

lemma bitlen_rat_bounds:
  assumes "0 < a"
  shows "(2::rat) powi (bitlen a - 1) \<le> of_int a" and "of_int a < (2::rat) powi (bitlen a)"
proof -
  from assms have pos: "1 \<le> bitlen a"
    using bitlen_eq_zero_iff [of a] bitlen_nonneg [of a] by linarith
  from bitlen_bounds [OF assms]
  have lo: "2 ^ nat (bitlen a - 1) \<le> a" and hi: "a < 2 ^ nat (bitlen a)" by simp_all
  from lo have "(of_int (2 ^ nat (bitlen a - 1)) :: rat) \<le> of_int a"
    by (simp only: of_int_le_iff)
  then show "(2::rat) powi (bitlen a - 1) \<le> of_int a"
    using pos by (simp add: power_int_nonneg_exp)
  from hi have "(of_int a :: rat) < of_int (2 ^ nat (bitlen a))"
    by (simp only: of_int_less_iff)
  then show "of_int a < (2::rat) powi (bitlen a)"
    using pos by (simp add: power_int_nonneg_exp)
qed

lemma floor_log2_bounds:
  assumes "0 < q"
  shows "2 powi (floor_log2 q) \<le> q" and "q < 2 powi (floor_log2 q + 1)"
proof -
  obtain a b where ab: "quotient_of q = (a, b)" by (cases "quotient_of q")
  then have b: "0 < b" by (rule quotient_of_denom_pos)
  from ab have q: "q = of_int a / of_int b" by (rule quotient_of_div)
  with assms b have a: "0 < a" by (simp add: zero_less_divide_iff)
  define d where "d = bitlen a - bitlen b"
  note A = bitlen_rat_bounds [OF a] and B = bitlen_rat_bounds [OF b]
  have bpos: "(0::rat) < of_int b" using b by simp
  have "(2::rat) powi (d - 1) = 2 powi (bitlen a - 1) / 2 powi (bitlen b)"
    unfolding d_def by (simp add: power_int_diff)
  also have "\<dots> \<le> of_int a / 2 powi (bitlen b)"
    using A(1) by (simp add: divide_right_mono)
  also have "\<dots> < of_int a / of_int b"
    using B(2) a bpos by (simp add: divide_strict_left_mono)
  finally have lo: "2 powi (d - 1) < q" by (simp add: q)
  have "q = of_int a / of_int b" by (rule q)
  also have "\<dots> < 2 powi (bitlen a) / of_int b"
    using A(2) bpos by (simp add: divide_strict_right_mono)
  also have "\<dots> \<le> 2 powi (bitlen a) / 2 powi (bitlen b - 1)"
    using B(1) by (intro frac_le) simp_all
  also have "\<dots> = 2 powi (d + 1)"
    unfolding d_def by (simp add: power_int_diff [symmetric] algebra_simps)
  finally have hi: "q < 2 powi (d + 1)" .
  have e: "floor_log2 q = (if q < 2 powi d then d - 1 else d)"
    by (simp add: floor_log2_def ab d_def Let_def)
  show "2 powi (floor_log2 q) \<le> q"
    using lo by (simp add: e)
  show "q < 2 powi (floor_log2 q + 1)"
    using hi by (simp add: e)
qed

lemma round_double_unfold:
  assumes "q \<noteq> 0"
  shows "round_double q =
    (if (2::rat) powi 1024 \<le>
          \<bar>(of_int (round_half_even (q / 2 powi (max (floor_log2 \<bar>q\<bar>) (- 1022) - 52))) :: rat) *
          2 powi (max (floor_log2 \<bar>q\<bar>) (- 1022) - 52)\<bar>
     then (if 0 < q then PosInf else NegInf)
     else Finite (of_int (round_half_even (q / 2 powi (max (floor_log2 \<bar>q\<bar>) (- 1022) - 52))) *
          2 powi (max (floor_log2 \<bar>q\<bar>) (- 1022) - 52)))"
  using assms unfolding round_double_def Let_def by simp

lemma round_double_percent:
  assumes "0 \<le> q" and "q \<le> 100"
  shows "\<exists>r. round_double q = Finite r \<and> 0 \<le> r \<and> r \<le> 100"
proof (cases "q = 0")
  case True
  then show ?thesis by (simp add: round_double_def)
next
  case False
  with assms have pos: "0 < q" by simp
  define e where "e = max (floor_log2 \<bar>q\<bar>) (- 1022)"
  define u :: rat where "u = 2 powi (e - 52)"
  define m where "m = round_half_even (q / u)"
  have "(2::rat) powi (floor_log2 q) \<le> q" using pos by (rule floor_log2_bounds)
  also have "q < 2 powi 7" using assms(2) by simp
  finally have "floor_log2 q < 7"
    by (rule power_int_le_imp_less_exp [rotated]) simp_all
  then have e: "e \<le> 6" using pos by (simp add: e_def)
  have u: "0 < u" by (simp add: u_def)
  have "100 / u = 100 * 2 powi (52 - e)"
    by (simp add: u_def power_int_diff)
  also have "\<dots> = of_int (100 * 2 ^ nat (52 - e))"
    using e by (simp add: power_int_nonneg_exp)
  finally have k: "100 / u = of_int (100 * 2 ^ nat (52 - e))" .
  have "q / u \<le> 100 / u" using assms(2) u by (simp add: divide_right_mono)
  then have "m \<le> 100 * 2 ^ nat (52 - e)"
    unfolding m_def k by (rule round_half_even_le)
  then have "(of_int m :: rat) \<le> of_int (100 * 2 ^ nat (52 - e))"
    by (simp only: of_int_le_iff)
  then have "of_int m \<le> 100 / u" by (simp only: k)
  then have hi: "of_int m * u \<le> 100" using u by (simp add: pos_le_divide_eq)
  have "of_int 0 \<le> q / u" using pos u by simp
  then have "0 \<le> m" unfolding m_def by (rule round_half_even_ge)
  then have lo: "0 \<le> of_int m * u" using u by simp
  have "\<bar>of_int m * u\<bar> < 2 powi 1024"
  proof -
    have "\<bar>of_int m * u\<bar> \<le> 100" using lo hi by simp
    also have "(100::rat) < 2 powi 7" by simp
    also have "(2::rat) powi 7 \<le> 2 powi 1024" by (rule power_int_increasing) simp_all
    finally show ?thesis .
  qed
  then have "round_double q = Finite (of_int m * u)"
    unfolding round_double_unfold [OF False] m_def u_def e_def by (simp only: if_not_P not_le)
  with lo hi show ?thesis by blast
qed

lemma round_double_positive:
  assumes "2 powi (- 1022) \<le> q" and "round_double q = Finite r"
  shows "0 < r"
proof -
  have "(0::rat) < 2 powi (- 1022)" by (rule zero_less_power_int) simp
  with assms(1) have pos: "0 < q" by simp
  then have nz: "q \<noteq> 0" by simp
  define e where "e = max (floor_log2 \<bar>q\<bar>) (- 1022)"
  define u :: rat where "u = 2 powi (e - 52)"
  define m where "m = round_half_even (q / u)"
  have "- 1022 \<le> floor_log2 q"
  proof (rule ccontr)
    assume "\<not> - 1022 \<le> floor_log2 q"
    then have "floor_log2 q + 1 \<le> - 1022" by simp
    then have "(2::rat) powi (floor_log2 q + 1) \<le> 2 powi (- 1022)"
      by (rule power_int_increasing) simp
    with floor_log2_bounds(2) [OF pos] assms(1) show False by simp
  qed
  then have e: "e = floor_log2 q" using pos by (simp add: e_def)
  have u: "0 < u" by (simp add: u_def)
  have "(2::rat) powi 52 = 2 powi (floor_log2 q) / u"
    by (simp add: u_def e power_int_diff)
  also have "\<dots> \<le> q / u"
    using floor_log2_bounds(1) [OF pos] u by (simp add: divide_right_mono)
  finally have "of_int 1 \<le> q / u"
    using one_less_power_int [of "2::rat" 52] by simp
  then have "1 \<le> m" unfolding m_def by (rule round_half_even_ge)
  then have r: "0 < of_int m * u" using u by simp
  from assms(2) have "r = of_int m * u"
    unfolding round_double_unfold [OF nz] m_def u_def e_def by (simp split: if_splits)
  with r show ?thesis by simp
qed

lemma int_truediv_positive:
  assumes "0 < t" and "int_truediv t (1024 ^ 3) = Inr x"
  shows "\<exists>r. x = Finite r \<and> 0 < r"
proof -
  define q :: rat where "q = of_int t / of_int (1024 ^ 3)"
  have "(1::rat) \<le> of_int t" using assms(1) by simp
  then have "1 / of_int (1024 ^ 3) \<le> q"
    unfolding q_def by (simp add: divide_right_mono)
  moreover have "(2::rat) powi (- 1022) \<le> 2 powi (- 30)"
    by (rule power_int_increasing) simp_all
  moreover have "(2::rat) powi (- 30) = 1 / of_int (1024 ^ 3)"
    by (simp add: power_int_minus_divide)
  ultimately have q: "2 powi (- 1022) \<le> q" by simp
  have div: "int_truediv t (1024 ^ 3) =
      (case round_double q of
         Finite r \<Rightarrow> Inr (Finite r)
       | _ \<Rightarrow> Inl (OtherException ''integer division result too large for a float''))"
    by (simp add: int_truediv_def q_def)
  show ?thesis
  proof (cases "round_double q")
    case (Finite r)
    with q have "0 < r" by (rule round_double_positive)
    moreover from assms(2) Finite have "x = Finite r" unfolding div by simp
    ultimately show ?thesis by simp
  next
    case PosInf
    with assms(2) show ?thesis unfolding div by simp
  next
    case NegInf
    with assms(2) show ?thesis unfolding div by simp
  next
    case NaN
    with assms(2) show ?thesis unfolding div by simp
  qed
qed

lemma float_mul_percent:
  assumes "0 \<le> l" and "l \<le> 1"
  shows "\<exists>r. float_mul_int (Finite l) 100 = Finite r \<and> 0 \<le> r \<and> r \<le> 100"
  using assms by (simp add: round_double_percent)

lemma cpu_usage_value:
  "cpu_percent env = Inr x \<Longrightarrow> snd (value_of (get_cpu_info env)) = PFloat x"
  by (cases "cpuinfo_get_cpu_info env")
    (simp_all add: value_of_def idle_world_def get_cpu_info_def bind_def try_except_def call_def
      ret_def py_print_def)

lemma ram_value:
  "virtual_memory env = Inr m \<Longrightarrow> int_truediv (total m) (1024 ^ 3) = Inr t \<Longrightarrow>
     value_of (get_ram_info env) = (PStr (format_f 2 t @ '' GB''), PFloat (percent m))"
  by (simp add: value_of_def idle_world_def get_ram_info_def bind_def try_except_def call_def
      ret_def)

lemma gpu_usage_value:
  "getGPUs env = Inr (g # rest) \<Longrightarrow>
     snd (value_of (get_gpu_info True env)) = PStr (format_f 1 (float_mul_int (load g) 100) @ ''%'')"
  by (simp add: value_of_def idle_world_def get_gpu_info_def bind_def try_except_def call_def
      ret_def)
text \<open>
  C8, as the code has it. The code checks no range and converts no type: the CPU usage
  and the RAM usage that a sensor returns are the floats psutil reported, unchanged, so
  each lies between 0 and 100 when psutil's reading does. The RAM total and the GPU usage
  are returned as strings, not floats: the total is the \<open>.2f\<close> rendering of the bytes
  divided by \<open>1024^3\<close>, followed by \<open>" GB"\<close>, and the quotient is a float above 0
  when the bytes are above 0; the GPU usage is the \<open>.1f\<close> rendering of the load times
  100, followed by a percent sign, and the product is a float between 0 and 100 when the
  load lies between 0 and 1. The claim as stated fails on the two strings, and a load that
  is not a number is rendered as \<open>"nan%"\<close>.
\<close>

theorem usage_ranges:
  "(cpu_percent env = Inr x \<longrightarrow> snd (value_of (get_cpu_info env)) = PFloat x)
   \<and> (cpu_percent env = Inr (Finite q) \<and> 0 \<le> q \<and> q \<le> 100 \<longrightarrow>
        percentage (snd (value_of (get_cpu_info env))))
   \<and> (virtual_memory env = Inr m \<and> int_truediv (total m) (1024 ^ 3) = Inr t \<longrightarrow>
        value_of (get_ram_info env) = (PStr (format_f 2 t @ '' GB''), PFloat (percent m))
      \<and> (percent m = Finite q \<and> 0 \<le> q \<and> q \<le> 100 \<longrightarrow>
           percentage (snd (value_of (get_ram_info env))))
      \<and> (0 < total m \<longrightarrow> (\<exists>r. t = Finite r \<and> 0 < r)))
   \<and> (getGPUs env = Inr (g # rest) \<and> load g = Finite l \<and> 0 \<le> l \<and> l \<le> 1 \<longrightarrow>
        (\<exists>r. float_mul_int (load g) 100 = Finite r \<and> 0 \<le> r \<and> r \<le> 100
           \<and> snd (value_of (get_gpu_info True env)) = PStr (format_fixed 1 r @ ''%'')))"
proof (intro conjI impI)
  show "snd (value_of (get_cpu_info env)) = PFloat x" if "cpu_percent env = Inr x"
    using that by (rule cpu_usage_value)
  show "percentage (snd (value_of (get_cpu_info env)))"
    if "cpu_percent env = Inr (Finite q) \<and> 0 \<le> q \<and> q \<le> 100"
    using that by (simp add: cpu_usage_value)
  assume m: "virtual_memory env = Inr m \<and> int_truediv (total m) (1024 ^ 3) = Inr t"
  then show v: "value_of (get_ram_info env) = (PStr (format_f 2 t @ '' GB''), PFloat (percent m))"
    by (simp add: ram_value)
  show "percentage (snd (value_of (get_ram_info env)))"
    if "percent m = Finite q \<and> 0 \<le> q \<and> q \<le> 100"
    using that by (simp add: v)
  show "\<exists>r. t = Finite r \<and> 0 < r" if "0 < total m"
    using that m by (blast intro: int_truediv_positive)
next
  assume g: "getGPUs env = Inr (g # rest) \<and> load g = Finite l \<and> 0 \<le> l \<and> l \<le> 1"
  then obtain r where "float_mul_int (Finite l) 100 = Finite r" "0 \<le> r" "r \<le> 100"
    using float_mul_percent [of l] by blast
  with g show "\<exists>r. float_mul_int (load g) 100 = Finite r \<and> 0 \<le> r \<and> r \<le> 100
      \<and> snd (value_of (get_gpu_info True env)) = PStr (format_fixed 1 r @ ''%'')"
    by (simp add: gpu_usage_value)
qed

theorem usage_ranges_witness:
  "percentage (snd (value_of (get_cpu_info test_host)))
   \<and> value_of (get_ram_info test_host) = (PStr ''2.00 GB'', PFloat (Finite (125 / 2)))
   \<and> percentage (snd (value_of (get_ram_info test_host)))
   \<and> (\<exists>r. int_truediv 2147483648 (1024 ^ 3) = Inr (Finite r) \<and> 0 < r)
   \<and> (\<exists>r. float_mul_int (Finite (1 / 2)) 100 = Finite r \<and> 0 \<le> r \<and> r \<le> 100
         \<and> snd (value_of (get_gpu_info True test_host)) = PStr (format_fixed 1 r @ ''%''))"
proof -
  note u = usage_ranges [of test_host "Finite (2980820003365847 / 70368744177664)"
      "2980820003365847 / 70368744177664"
      "\<lparr>total = 2147483648, percent = Finite (125 / 2)\<rparr>" "Finite 2"
      "\<lparr>name = ''Test GPU'', load = Finite (1 / 2)\<rparr>" "[]" "1 / 2"]
  have cpu: "percentage (snd (value_of (get_cpu_info test_host)))"
    using u by (simp add: test_host_def)
  have ram: "value_of (get_ram_info test_host) = (PStr ''2.00 GB'', PFloat (Finite (125 / 2)))"
      "\<exists>r. int_truediv 2147483648 (1024 ^ 3) = Inr (Finite r) \<and> 0 < r"
    using u by (simp_all add: test_host_def truediv_2G format_2)
  have ram_usage: "percentage (snd (value_of (get_ram_info test_host)))"
    using usage_ranges [of test_host _ "125 / 2"
      "\<lparr>total = 2147483648, percent = Finite (125 / 2)\<rparr>" "Finite 2"]
    by (simp add: test_host_def truediv_2G)
  have gpu: "\<exists>r. float_mul_int (Finite (1 / 2)) 100 = Finite r \<and> 0 \<le> r \<and> r \<le> 100
         \<and> snd (value_of (get_gpu_info True test_host)) = PStr (format_fixed 1 r @ ''%'')"
    using u by (simp add: test_host_def)
  from cpu ram ram_usage gpu show ?thesis by blast
qed

theorem field_typing_counterexample:
  "fst (value_of (get_ram_info test_host)) = PStr ''2.00 GB''
   \<and> \<not> positive_float (fst (value_of (get_ram_info test_host)))
   \<and> snd (value_of (get_gpu_info True test_host)) = PStr ''50.0%''
   \<and> \<not> percentage (snd (value_of (get_gpu_info True test_host)))
   \<and> snd (value_of (get_gpu_info True
        (test_host\<lparr>getGPUs := Inr [\<lparr>name = ''Test GPU'', load = NaN\<rparr>]\<rparr>))) = PStr ''nan%''"
  by (simp add: test_host_values gpu_usage_value)

end
